theory Spec2Isabelle
  imports Complex_Main "HOL-Library.Word" "HOL-Library.Sublist"
begin

section \<open>Data model\<close>

text \<open>
  The program is one React component, \<^verbatim>\<open>App\<close> in \<^verbatim>\<open>src/App.tsx\<close>. Its state is the
  three \<^verbatim>\<open>useState\<close> cells; its conversion routine is \<^verbatim>\<open>convertToPDF\<close>. Strings are
  \<^typ>\<open>string\<close>, the bytes of a \<^verbatim>\<open>Uint8Array\<close> are 8-bit words. The routine looks at no
  character of a string other than the line feed, the dot and the slash, and at the
  prefixes \<^verbatim>\<open>text/\<close> and \<^verbatim>\<open>image/\<close> of the declared type.
\<close>

type_synonym byte = "8 word"

record SelectedFile =
  uri :: string
  name :: string
  mimeType :: "string option"

record app_state =
  selectedFile :: "SelectedFile option"
  isConverting :: bool
  downloadUrl :: "string option"

text \<open>
  Every \<^verbatim>\<open>throw\<close> inside the \<^verbatim>\<open>try\<close> block of \<^verbatim>\<open>convertToPDF\<close> reaches the same
  \<^verbatim>\<open>catch\<close>. The model tags each throw with the step that raised it, under the name
  that section 7 of the specification gives to that failure.
\<close>

datatype error =
    NoFileSelected
  | SourceUnreadable
  | UnsupportedImageFormat
  | CorruptImageData
  | InvalidGeometry
  | SerializationError
  | PersistenceFailure
  | ViewerUnavailable

datatype Color = rgb int int int

datatype RasterFormat = PNG | JPEG

record EmbeddedImage =
  imageFormat :: RasterFormat
  imageWidth :: nat
  imageHeight :: nat

text \<open>
  Coordinates and sizes are JavaScript numbers. Every one the program passes to a text
  operation is an integer; the only non-integers are the halved image dimensions, which
  are rationals.
\<close>

datatype DrawOperation =
    Text (content: string) (textX: int) (textY: int) (fontSize: int)
         (maxWidth: "int option") (color: Color)
  | Image (embeddedRef: EmbeddedImage) (imageX: int) (imageY: int)
          (drawnWidth: rat) (drawnHeight: rat)

record PageCanvas =
  pageWidth :: int
  pageHeight :: int
  ops :: "DrawOperation list"

record Document =
  pages :: "PageCanvas list"

section \<open>Document Builder\<close>

text \<open>
  Modelled from the spec: the Document Builder of section 4.1. It is the \<^verbatim>\<open>pdf-lib\<close>
  package, which \<^verbatim>\<open>src/App.tsx\<close> imports and which is not part of the repository. A new
  document has no page; \<^verbatim>\<open>addPage\<close> appends a page and returns its handle; a drawing call
  appends one operation to the page it is given; \<^verbatim>\<open>drawText\<close> fails with
  \<^const>\<open>InvalidGeometry\<close> on a size that is not positive (coordinates here are integers,
  so always finite); \<^verbatim>\<open>scale\<close> multiplies the intrinsic dimensions by the factor. A page
  handle is the index of the page in its document; the routine only uses handles that
  \<^verbatim>\<open>addPage\<close> returned, and on any other index \<open>append_op\<close> leaves the document as it is.
\<close>

definition create :: Document where
  "create = \<lparr>pages = []\<rparr>"

definition addPage :: "Document \<Rightarrow> int \<Rightarrow> int \<Rightarrow> Document \<times> nat" where
  "addPage doc w h =
     (doc\<lparr>pages := pages doc @ [\<lparr>pageWidth = w, pageHeight = h, ops = []\<rparr>]\<rparr>,
      length (pages doc))"

definition append_op :: "Document \<Rightarrow> nat \<Rightarrow> DrawOperation \<Rightarrow> Document" where
  "append_op doc page operation =
     doc\<lparr>pages := (pages doc)
       [page := (pages doc ! page)\<lparr>ops := ops (pages doc ! page) @ [operation]\<rparr>]\<rparr>"

definition drawText ::
  "Document \<Rightarrow> nat \<Rightarrow> string \<Rightarrow> int \<Rightarrow> int \<Rightarrow> int \<Rightarrow> int option \<Rightarrow> Color
     \<Rightarrow> error + Document" where
  "drawText doc page text x y sz mw col =
     (if sz \<le> 0 then Inl InvalidGeometry
      else Inr (append_op doc page (Text text x y sz mw col)))"

definition scale :: "EmbeddedImage \<Rightarrow> rat \<Rightarrow> rat \<times> rat" where
  "scale img factor = (of_nat (imageWidth img) * factor, of_nat (imageHeight img) * factor)"

definition drawImage ::
  "Document \<Rightarrow> nat \<Rightarrow> EmbeddedImage \<Rightarrow> int \<Rightarrow> int \<Rightarrow> rat \<Rightarrow> rat \<Rightarrow> Document" where
  "drawImage doc page img x y w h = append_op doc page (Image img x y w h)"

section \<open>Platform\<close>

text \<open>
  The calls into \<^verbatim>\<open>expo-file-system\<close>, \<^verbatim>\<open>base-64\<close>, the image decoders and the PDF encoder
  of \<^verbatim>\<open>pdf-lib\<close>, and the clock are parameters. A call that rejects or throws returns
  \<^const>\<open>None\<close> (\<^const>\<open>False\<close> for the write). \<open>readAsBase64\<close> is \<^verbatim>\<open>readAsStringAsync\<close> with
  the \<^verbatim>\<open>Base64\<close> encoding option; \<open>getInfoAsync\<close> tells whether the file exists and, if so,
  its size in bytes; \<open>toLocaleString\<close> is \<^verbatim>\<open>new Date().toLocaleString()\<close>; \<open>encode\<close> is the
  byte stream \<^verbatim>\<open>pdf-lib\<close> produces for a document; \<open>globalBtoa\<close> and \<open>bufferBase64\<close> are the
  two codecs that the local \<^verbatim>\<open>btoa\<close> tries; \<open>documentDirectory\<close> is
  \<^verbatim>\<open>FileSystem.documentDirectory\<close> as the template of line 149 prints it; \<open>errorMessage\<close>
  is the message that the \<^verbatim>\<open>catch\<close> block shows for a failure.
\<close>

datatype FileInfo = NotExists | Exists nat

record platform =
  readAsStringAsync :: "string \<Rightarrow> string option"
  readAsBase64 :: "string \<Rightarrow> string option"
  atob :: "string \<Rightarrow> string option"
  embedPng :: "byte list \<Rightarrow> EmbeddedImage option"
  embedJpg :: "byte list \<Rightarrow> EmbeddedImage option"
  getInfoAsync :: "string \<Rightarrow> FileInfo option"
  toLocaleString :: string
  encode :: "Document \<Rightarrow> byte list"
  globalBtoa :: "string \<Rightarrow> string option"
  bufferBase64 :: "string \<Rightarrow> string option"
  documentDirectory :: string
  writeAsStringAsync :: "string \<Rightarrow> string \<Rightarrow> bool"
  errorMessage :: "error \<Rightarrow> string"

text \<open>What the routine does to the outside, in order.\<close>

datatype event =
    SetIsConverting bool
  | SetDownloadUrl string
  | Alert string string
  | ConsoleLog error
  | ReadAsString string
  | ReadAsBase64 string
  | Atob
  | EmbedPng
  | EmbedJpg
  | GetInfo string
  | Save
  | GlobalBtoa
  | BufferBase64
  | WriteAsString string string

text \<open>
  Modelled from the spec: \<^verbatim>\<open>serialize\<close> of section 4.1 (\<^verbatim>\<open>PDFDocument.save\<close> of
  \<^verbatim>\<open>pdf-lib\<close>) fails with \<^const>\<open>SerializationError\<close> if the Document has zero pages and
  otherwise produces the byte stream.
\<close>

definition save :: "platform \<Rightarrow> Document \<Rightarrow> error + byte list" where
  "save env doc = (if pages doc = [] then Inl SerializationError else Inr (encode env doc))"

section \<open>String helpers of the JavaScript runtime\<close>

text \<open>\<^verbatim>\<open>s.startsWith(p)\<close>: the first \<^verbatim>\<open>p.length\<close> characters of \<^verbatim>\<open>s\<close> are \<^verbatim>\<open>p\<close>.\<close>

definition startsWith :: "string \<Rightarrow> string \<Rightarrow> bool" where
  "startsWith s p = (take (length p) s = p)"

text \<open>
  \<^verbatim>\<open>m?.startsWith(p)\<close> in a condition: on \<^verbatim>\<open>null\<close> the optional chain yields
  \<^verbatim>\<open>undefined\<close>, which is falsy.
\<close>

definition optStartsWith :: "string option \<Rightarrow> string \<Rightarrow> bool" where
  "optStartsWith m p = (case m of None \<Rightarrow> False | Some s \<Rightarrow> startsWith s p)"

definition LF :: char where
  "LF = CHR 0x0A"

text \<open>
  \<^verbatim>\<open>s.split('\n')\<close>: the pieces between line feeds, so one piece more than there are
  line feeds; the empty string gives one empty piece.
\<close>

fun split_lf :: "string \<Rightarrow> string list" where
  "split_lf [] = [[]]"
| "split_lf (c # cs) =
     (if c = LF then [] # split_lf cs
      else (case split_lf cs of [] \<Rightarrow> [[c]] | l # ls \<Rightarrow> (c # l) # ls))"

text \<open>Decimal digits of a natural number, as \<^verbatim>\<open>String(n)\<close> prints them.\<close>

definition digit :: "nat \<Rightarrow> char" where
  "digit d = ''0123456789'' ! (d mod 10)"

function show_nat :: "nat \<Rightarrow> string" where
  "show_nat n = (if n < 10 then [digit n] else show_nat (n div 10) @ [digit (n mod 10)])"
  by pat_completeness auto
termination
  by (relation "measure (\<lambda>n. n)") auto

declare show_nat.simps [simp del]

text \<open>
  \<^verbatim>\<open>(size / 1024).toFixed(2)\<close> for a byte count \<^verbatim>\<open>size\<close>. Dividing a double by 1024 is
  exact for every size a file can have (an integer below \<open>2 ^ 53\<close>), and \<^verbatim>\<open>toFixed(2)\<close>
  takes the integer \<^verbatim>\<open>n\<close> with \<^verbatim>\<open>n / 100\<close> nearest to the value, the larger one on a tie:
  \<^verbatim>\<open>n = floor((100 * size + 512) / 1024)\<close>. It prints \<^verbatim>\<open>n\<close> with a point before its last
  two digits.
\<close>

definition kilobytes_toFixed2 :: "nat \<Rightarrow> string" where
  "kilobytes_toFixed2 sz =
     (let n = (100 * sz + 512) div 1024
      in show_nat (n div 100) @ ''.'' @ [digit (n mod 100 div 10), digit (n mod 10)])"

text \<open>
  \<^verbatim>\<open>name.replace(/\.[^/.]+$/, '')\<close>. The pattern matches at a position when a dot stands
  there and at least one character follows, none of them a slash or a dot, up to the end
  of the string. The leftmost match is replaced; it reaches the end, so nothing is left
  after it.
\<close>

fun extension_at :: "string \<Rightarrow> bool" where
  "extension_at [] = False"
| "extension_at (c # cs) =
     (c = CHR ''.'' \<and> cs \<noteq> [] \<and> list_all (\<lambda>d. d \<noteq> CHR ''/'' \<and> d \<noteq> CHR ''.'') cs)"

fun replace_extension :: "string \<Rightarrow> string" where
  "replace_extension [] = []"
| "replace_extension (c # cs) =
     (if extension_at (c # cs) then [] else c # replace_extension cs)"

text \<open>
  The local \<^verbatim>\<open>btoa\<close> (lines 11 to 17): the global codec first; when that throws, the
  buffer codec, whose own throw is not caught here.
\<close>

definition btoa :: "platform \<Rightarrow> string \<Rightarrow> event list \<times> string option" where
  "btoa env str =
     (case globalBtoa env str of
        Some r \<Rightarrow> ([GlobalBtoa], Some r)
      | None \<Rightarrow> ([GlobalBtoa, BufferBase64], bufferBase64 env str))"

section \<open>The conversion routine\<close>

text \<open>
  The \<^verbatim>\<open>for\<close> loop of lines 80 to 93. The loop variables are the cursor \<^verbatim>\<open>yPosition\<close>,
  the document and the current page.
\<close>

fun draw_lines :: "string list \<Rightarrow> int \<Rightarrow> Document \<Rightarrow> nat \<Rightarrow> error + Document" where
  "draw_lines [] yPosition doc page = Inr doc"
| "draw_lines (line # rest) yPosition doc page =
     (let (yPosition1, doc1, page1) =
            (if yPosition < 50
             then (case addPage doc 595 842 of (d, p) \<Rightarrow> (750, d, p))
             else (yPosition, doc, page))
      in case drawText doc1 page1 line 50 yPosition1 12 (Some 500) (rgb 0 0 0) of
           Inl e \<Rightarrow> Inl e
         | Inr doc2 \<Rightarrow> draw_lines rest (yPosition1 - 14) doc2 page1)"

text \<open>
  Lines 73 to 93: the branch for a text file. A read that rejects is
  \<^const>\<open>SourceUnreadable\<close>.
\<close>

definition text_branch ::
  "platform \<Rightarrow> SelectedFile \<Rightarrow> Document \<Rightarrow> nat \<Rightarrow> event list \<times> (error + Document)" where
  "text_branch env f doc page =
     (case readAsStringAsync env (uri f) of
        None \<Rightarrow> ([ReadAsString (uri f)], Inl SourceUnreadable)
      | Some textContent \<Rightarrow>
          ([ReadAsString (uri f)], draw_lines (split_lf textContent) 750 doc page))"

text \<open>
  Lines 95 to 120: the branch for an image file. A read that rejects and an \<^verbatim>\<open>atob\<close> that
  throws are \<^const>\<open>SourceUnreadable\<close>; an embedder that throws is
  \<^const>\<open>CorruptImageData\<close>. The embedder is chosen by comparing the declared type with
  \<^verbatim>\<open>image/png\<close>; there is no third case.
\<close>

definition image_branch ::
  "platform \<Rightarrow> SelectedFile \<Rightarrow> Document \<Rightarrow> nat \<Rightarrow> event list \<times> (error + Document)" where
  "image_branch env f doc page =
     (case readAsBase64 env (uri f) of
        None \<Rightarrow> ([ReadAsBase64 (uri f)], Inl SourceUnreadable)
      | Some imageData \<Rightarrow>
          (case atob env imageData of
             None \<Rightarrow> ([ReadAsBase64 (uri f), Atob], Inl SourceUnreadable)
           | Some binary \<Rightarrow>
               (let imageBytes = map of_char binary
                in if mimeType f = Some ''image/png''
                   then (case embedPng env imageBytes of
                           None \<Rightarrow> ([ReadAsBase64 (uri f), Atob, EmbedPng], Inl CorruptImageData)
                         | Some embeddedImage \<Rightarrow>
                             (case scale embeddedImage (1 / 2) of (w, h) \<Rightarrow>
                                ([ReadAsBase64 (uri f), Atob, EmbedPng],
                                 Inr (drawImage doc page embeddedImage 50 400 w h))))
                   else (case embedJpg env imageBytes of
                           None \<Rightarrow> ([ReadAsBase64 (uri f), Atob, EmbedJpg], Inl CorruptImageData)
                         | Some embeddedImage \<Rightarrow>
                             (case scale embeddedImage (1 / 2) of (w, h) \<Rightarrow>
                                ([ReadAsBase64 (uri f), Atob, EmbedJpg],
                                 Inr (drawImage doc page embeddedImage 50 400 w h)))))))"

text \<open>
  Lines 122 to 145: the branch for every other file. \<^verbatim>\<open>mimeType || 'unknown'\<close> takes
  the right operand for \<^verbatim>\<open>null\<close> and for the empty string. A probe that rejects is
  \<^const>\<open>SourceUnreadable\<close>.
\<close>

definition details_block :: "platform \<Rightarrow> SelectedFile \<Rightarrow> FileInfo \<Rightarrow> string" where
  "details_block env f fileInfo =
     ''Original File: '' @ name f @ [LF] @
     ''Type: '' @ (case mimeType f of None \<Rightarrow> ''unknown''
                   | Some m \<Rightarrow> if m = [] then ''unknown'' else m) @ [LF] @
     ''Size: '' @ (case fileInfo of Exists sz \<Rightarrow> kilobytes_toFixed2 sz @ '' KB''
                   | NotExists \<Rightarrow> ''unknown'') @ [LF] @
     ''Converted on: '' @ toLocaleString env"

definition fallback_branch ::
  "platform \<Rightarrow> SelectedFile \<Rightarrow> Document \<Rightarrow> nat \<Rightarrow> event list \<times> (error + Document)" where
  "fallback_branch env f doc page =
     (case getInfoAsync env (uri f) of
        None \<Rightarrow> ([GetInfo (uri f)], Inl SourceUnreadable)
      | Some fileInfo \<Rightarrow>
          ([GetInfo (uri f)],
           (case drawText doc page ''File Conversion Details'' 50 700 16 None (rgb 0 0 0) of
              Inl e \<Rightarrow> Inl e
            | Inr doc1 \<Rightarrow>
                drawText doc1 page (details_block env f fileInfo) 50 650 12 None (rgb 0 0 0))))"

text \<open>Lines 61 to 145: the document is created, titled and filled by one branch.\<close>

definition synthesize :: "platform \<Rightarrow> SelectedFile \<Rightarrow> event list \<times> (error + Document)" where
  "synthesize env f =
     (case addPage create 595 842 of (pdfDoc, page) \<Rightarrow>
        (case drawText pdfDoc page (''Converted from: '' @ name f) 50 800 18 None (rgb 0 0 0) of
           Inl e \<Rightarrow> ([], Inl e)
         | Inr doc \<Rightarrow>
             if optStartsWith (mimeType f) ''text/'' then text_branch env f doc page
             else if optStartsWith (mimeType f) ''image/'' then image_branch env f doc page
             else fallback_branch env f doc page))"

text \<open>Line 149.\<close>

definition pdfUri :: "platform \<Rightarrow> SelectedFile \<Rightarrow> string" where
  "pdfUri env f = documentDirectory env @ replace_extension (name f) @ ''.pdf''"

text \<open>
  Lines 148 to 159: the document is serialized, encoded and written. A codec that throws
  and a write that rejects are \<^const>\<open>PersistenceFailure\<close>.
\<close>

definition persist :: "platform \<Rightarrow> SelectedFile \<Rightarrow> Document \<Rightarrow> event list \<times> (error + string)" where
  "persist env f doc =
     (case save env doc of
        Inl e \<Rightarrow> ([Save], Inl e)
      | Inr pdfBytes \<Rightarrow>
          (let base64String = map (\<lambda>byte. char_of (unat byte)) pdfBytes
           in case btoa env base64String of
                (evs, None) \<Rightarrow> (Save # evs, Inl PersistenceFailure)
              | (evs, Some base64) \<Rightarrow>
                  if writeAsStringAsync env (pdfUri env f) base64
                  then (Save # evs @ [WriteAsString (pdfUri env f) base64], Inr (pdfUri env f))
                  else (Save # evs @ [WriteAsString (pdfUri env f) base64],
                        Inl PersistenceFailure)))"

text \<open>The \<^verbatim>\<open>try\<close> block, lines 60 to 162, up to the state update.\<close>

definition attempt :: "platform \<Rightarrow> SelectedFile \<Rightarrow> event list \<times> (error + string)" where
  "attempt env f =
     (case synthesize env f of
        (evs, Inl e) \<Rightarrow> (evs, Inl e)
      | (evs, Inr doc) \<Rightarrow> (case persist env f doc of (evs', r) \<Rightarrow> (evs @ evs', r)))"

text \<open>
  \<^verbatim>\<open>convertToPDF\<close>, lines 52 to 169: the guard, the busy flag, the \<^verbatim>\<open>try\<close> block with
  its \<^verbatim>\<open>catch\<close> and \<^verbatim>\<open>finally\<close>. It returns the new state and what it did.
\<close>

definition convertToPDF :: "platform \<Rightarrow> app_state \<Rightarrow> app_state \<times> event list" where
  "convertToPDF env s =
     (case selectedFile s of
        None \<Rightarrow> (s, [Alert ''Error'' ''Please select a file first''])
      | Some f \<Rightarrow>
          (case attempt env f of
             (evs, Inr path) \<Rightarrow>
               (s\<lparr>isConverting := False, downloadUrl := Some path\<rparr>,
                SetIsConverting True # evs @
                [SetDownloadUrl path,
                 Alert ''Success'' ''File converted to PDF successfully!'',
                 SetIsConverting False])
           | (evs, Inl e) \<Rightarrow>
               (s\<lparr>isConverting := False\<rparr>,
                SetIsConverting True # evs @
                [ConsoleLog e,
                 Alert ''Error'' (''Failed to convert file: '' @ errorMessage env e),
                 SetIsConverting False])))"

section \<open>Vocabulary of the properties\<close>

text \<open>The operations the routine draws: the title of line 65 and a line of the loop.\<close>

definition title_op :: "SelectedFile \<Rightarrow> DrawOperation" where
  "title_op f = Text (''Converted from: '' @ name f) 50 800 18 None (rgb 0 0 0)"

definition line_op :: "string \<Rightarrow> int \<Rightarrow> DrawOperation" where
  "line_op l y = Text l 50 y 12 (Some 500) (rgb 0 0 0)"

definition blank_page :: PageCanvas where
  "blank_page = \<lparr>pageWidth = 595, pageHeight = 842, ops = []\<rparr>"

text \<open>The document as it stands when a branch starts: one page holding the title.\<close>

definition titled :: "SelectedFile \<Rightarrow> Document" where
  "titled f = \<lparr>pages = [blank_page\<lparr>ops := [title_op f]\<rparr>]\<rparr>"

text \<open>
  A body line is recognised by its width limit: the loop is the only place that passes
  \<^verbatim>\<open>maxWidth\<close>.
\<close>

definition is_line_op :: "DrawOperation \<Rightarrow> bool" where
  "is_line_op operation =
     (case operation of Text c x y s mw col \<Rightarrow> mw = Some 500 | Image i x y w h \<Rightarrow> False)"

definition lines_on :: "PageCanvas \<Rightarrow> nat" where
  "lines_on p = length (filter is_line_op (ops p))"

definition lines_per_page :: "platform \<Rightarrow> SelectedFile \<Rightarrow> nat list option" where
  "lines_per_page env f =
     (case snd (synthesize env f) of
        Inl e \<Rightarrow> None
      | Inr doc \<Rightarrow> Some (map lines_on (pages doc)))"

definition page_count :: "platform \<Rightarrow> SelectedFile \<Rightarrow> nat option" where
  "page_count env f =
     (case snd (synthesize env f) of Inl e \<Rightarrow> None | Inr doc \<Rightarrow> Some (length (pages doc)))"

text \<open>
  The loop seen from the current page: the pages it leaves behind, from the page it
  started on. It has no page handles and no document.
\<close>

fun layout :: "string list \<Rightarrow> int \<Rightarrow> PageCanvas \<Rightarrow> PageCanvas list" where
  "layout [] y p = [p]"
| "layout (l # ls) y p =
     (if y < 50 then p # layout ls 736 (blank_page\<lparr>ops := [line_op l 750]\<rparr>)
      else layout ls (y - 14) (p\<lparr>ops := ops p @ [line_op l y]\<rparr>))"

text \<open>
  The page count as the specification words it, with 50 lines for the first and for
  every full page.
\<close>

definition spec_page_count :: "nat \<Rightarrow> nat" where
  "spec_page_count totalLines =
     (if totalLines > 50 then 1 + (totalLines - 50) div 50 else 1)"

text \<open>The dispatcher as the specification words it (section 4.2).\<close>

datatype strategy = TextLayout | ImageEmbedding | MetadataFallback

definition select_strategy :: "string option \<Rightarrow> strategy" where
  "select_strategy declared =
     (case declared of
        None \<Rightarrow> MetadataFallback
      | Some t \<Rightarrow>
          if prefix ''text/'' t then TextLayout
          else if prefix ''image/'' t then ImageEmbedding
          else MetadataFallback)"

text \<open>Projections of what the routine did.\<close>

fun busy_updates :: "event list \<Rightarrow> bool list" where
  "busy_updates [] = []"
| "busy_updates (SetIsConverting b # evs) = b # busy_updates evs"
| "busy_updates (ev # evs) = busy_updates evs"

fun url_updates :: "event list \<Rightarrow> string list" where
  "url_updates [] = []"
| "url_updates (SetDownloadUrl path # evs) = path # url_updates evs"
| "url_updates (ev # evs) = url_updates evs"

fun written :: "event list \<Rightarrow> (string \<times> string) list" where
  "written [] = []"
| "written (WriteAsString path data # evs) = (path, data) # written evs"
| "written (ev # evs) = written evs"

definition is_call :: "event \<Rightarrow> bool" where
  "is_call ev =
     (case ev of
        SetIsConverting b \<Rightarrow> False
      | SetDownloadUrl path \<Rightarrow> False
      | Alert title body \<Rightarrow> False
      | ConsoleLog e \<Rightarrow> False
      | _ \<Rightarrow> True)"

definition calls :: "event list \<Rightarrow> event list" where
  "calls evs = filter is_call evs"

text \<open>
  Reading a printed number back, independently of how the routine prints it: which
  characters are decimal digits, and the number that a string of digits denotes.
\<close>

definition is_digit :: "char \<Rightarrow> bool" where
  "is_digit c = (48 \<le> (of_char c :: nat) \<and> (of_char c :: nat) \<le> 57)"

definition digit_value :: "char \<Rightarrow> nat" where
  "digit_value c = of_char c - 48"

definition decimal_value :: "string \<Rightarrow> nat" where
  "decimal_value ds = foldl (\<lambda>acc c. 10 * acc + digit_value c) 0 ds"

section \<open>An in-memory platform and sample files\<close>

text \<open>
  A platform whose file system is an association list from locator to content. Its
  base-64 codec is the identity, its decoders accept the two signatures and read the
  dimensions from the bytes that follow, and its writes succeed.
\<close>

definition toy_png :: "byte list \<Rightarrow> EmbeddedImage option" where
  "toy_png bytes =
     (if take 4 bytes = [0x89, 0x50, 0x4E, 0x47] \<and> 6 \<le> length bytes
      then Some \<lparr>imageFormat = PNG, imageWidth = unat (bytes ! 4),
                  imageHeight = unat (bytes ! 5)\<rparr>
      else None)"

definition toy_jpg :: "byte list \<Rightarrow> EmbeddedImage option" where
  "toy_jpg bytes =
     (if take 2 bytes = [0xFF, 0xD8] \<and> 4 \<le> length bytes
      then Some \<lparr>imageFormat = JPEG, imageWidth = unat (bytes ! 2),
                  imageHeight = unat (bytes ! 3)\<rparr>
      else None)"

definition memory_platform :: "(string \<times> string) list \<Rightarrow> platform" where
  "memory_platform files =
     \<lparr>readAsStringAsync = map_of files,
      readAsBase64 = map_of files,
      atob = Some,
      embedPng = toy_png,
      embedJpg = toy_jpg,
      getInfoAsync =
        (\<lambda>u. Some (case map_of files u of None \<Rightarrow> NotExists | Some c \<Rightarrow> Exists (length c))),
      toLocaleString = ''11/2/2026, 10:59:00 AM'',
      encode = (\<lambda>doc. map of_char ''%PDF-1.7''),
      globalBtoa = Some,
      bufferBase64 = Some,
      documentDirectory = ''file:///documents/'',
      writeAsStringAsync = (\<lambda>path data. True),
      errorMessage = (\<lambda>e. ''failed'')\<rparr>"

definition idle :: "SelectedFile option \<Rightarrow> app_state" where
  "idle selection = \<lparr>selectedFile = selection, isConverting = False, downloadUrl = None\<rparr>"

text \<open>A text file of 120 lines and one of 52 lines.\<close>

definition notes_txt :: SelectedFile where
  "notes_txt =
     \<lparr>uri = ''file:///notes.txt'', name = ''notes.txt'', mimeType = Some ''text/plain''\<rparr>"

definition notes_content :: string where
  "notes_content = concat (replicate 119 (''a'' @ [LF])) @ ''a''"

definition notes_platform :: platform where
  "notes_platform = memory_platform [(''file:///notes.txt'', notes_content)]"

definition memo_txt :: SelectedFile where
  "memo_txt =
     \<lparr>uri = ''file:///memo.txt'', name = ''memo.txt'', mimeType = Some ''text/plain''\<rparr>"

definition memo_content :: string where
  "memo_content = replicate 51 LF"

definition memo_platform :: platform where
  "memo_platform = memory_platform [(''file:///memo.txt'', memo_content)]"

text \<open>
  Two files declared \<^verbatim>\<open>image/gif\<close>: one holds JPEG data, the other GIF data. And a PNG
  picture of 100 by 75 pixels.
\<close>

definition photo_gif :: SelectedFile where
  "photo_gif =
     \<lparr>uri = ''file:///photo.gif'', name = ''photo.gif'', mimeType = Some ''image/gif''\<rparr>"

definition anim_gif :: SelectedFile where
  "anim_gif =
     \<lparr>uri = ''file:///anim.gif'', name = ''anim.gif'', mimeType = Some ''image/gif''\<rparr>"

definition picture_png :: SelectedFile where
  "picture_png =
     \<lparr>uri = ''file:///picture.png'', name = ''picture.png'', mimeType = Some ''image/png''\<rparr>"

definition gallery :: platform where
  "gallery = memory_platform
     [(''file:///photo.gif'', [CHR 0xFF, CHR 0xD8, CHR 0x40, CHR 0x30]),
      (''file:///anim.gif'', ''GIF89a''),
      (''file:///picture.png'', [CHR 0x89, CHR 0x50, CHR 0x4E, CHR 0x47, CHR 0x64, CHR 0x4B])]"

text \<open>An archive of 2048 bytes, and a file the picker reported without a type.\<close>

definition archive_zip :: SelectedFile where
  "archive_zip =
     \<lparr>uri = ''file:///archive.zip'', name = ''archive.zip'',
      mimeType = Some ''application/zip''\<rparr>"

definition blob :: SelectedFile where
  "blob = \<lparr>uri = ''file:///blob'', name = ''blob'', mimeType = None\<rparr>"

definition downloads :: platform where
  "downloads = memory_platform [(''file:///archive.zip'', replicate 2048 (CHR ''z''))]"

text \<open>The same archive with 20480 bytes.\<close>

definition backups :: platform where
  "backups = memory_platform [(''file:///archive.zip'', replicate 20480 (CHR ''z''))]"

text \<open>A text file that is not there, and a platform whose writes fail.\<close>

definition missing_txt :: SelectedFile where
  "missing_txt =
     \<lparr>uri = ''file:///missing.txt'', name = ''missing.txt'', mimeType = Some ''text/plain''\<rparr>"

definition full_disk :: platform where
  "full_disk = gallery\<lparr>writeAsStringAsync := (\<lambda>path data. False)\<rparr>"

section \<open>The text loop\<close>

text \<open>
  The loop of \<^const>\<open>draw_lines\<close> always draws on the last page of the document, so its
  result is the pages before that one followed by \<^const>\<open>layout\<close> of the last page.
\<close>

lemma draw_lines_layout:
  "draw_lines ls y \<lparr>pages = ps @ [p]\<rparr> (length ps) = Inr \<lparr>pages = ps @ layout ls y p\<rparr>"
proof (induction ls arbitrary: y ps p)
  case Nil
  show ?case by simp
next
  case (Cons l ls)
  show ?case
  proof (cases "y < 50")
    case True
    have "draw_lines (l # ls) y \<lparr>pages = ps @ [p]\<rparr> (length ps)
          = draw_lines ls 736 \<lparr>pages = (ps @ [p]) @ [blank_page\<lparr>ops := [line_op l 750]\<rparr>]\<rparr>
              (length (ps @ [p]))"
      using True
      by (simp add: addPage_def drawText_def append_op_def blank_page_def line_op_def
            nth_append list_update_append)
    also have "\<dots> = Inr \<lparr>pages = (ps @ [p]) @ layout ls 736 (blank_page\<lparr>ops := [line_op l 750]\<rparr>)\<rparr>"
      by (rule Cons.IH)
    finally show ?thesis using True by simp
  next
    case False
    have "draw_lines (l # ls) y \<lparr>pages = ps @ [p]\<rparr> (length ps)
          = draw_lines ls (y - 14) \<lparr>pages = ps @ [p\<lparr>ops := ops p @ [line_op l y]\<rparr>]\<rparr> (length ps)"
      using False by (simp add: drawText_def append_op_def line_op_def)
    also have "\<dots> = Inr \<lparr>pages = ps @ layout ls (y - 14) (p\<lparr>ops := ops p @ [line_op l y]\<rparr>)\<rparr>"
      by (rule Cons.IH)
    finally show ?thesis using False by simp
  qed
qed

lemma layout_counts:
  "y = 750 - 14 * int k \<Longrightarrow> k \<le> 51 \<Longrightarrow> lines_on p = k \<Longrightarrow>
   map lines_on (layout ls y p) =
     replicate ((k + length ls - 1) div 51) 51 @
     [k + length ls - 51 * ((k + length ls - 1) div 51)]"
proof (induction ls arbitrary: y k p)
  case Nil
  then show ?case by simp
next
  case (Cons l ls)
  show ?case
  proof (cases "y < 50")
    case True
    with Cons.prems have k: "k = 51" by linarith
    have "map lines_on (layout ls 736 (blank_page\<lparr>ops := [line_op l 750]\<rparr>)) =
          replicate ((1 + length ls - 1) div 51) 51 @
          [1 + length ls - 51 * ((1 + length ls - 1) div 51)]"
      by (rule Cons.IH) (simp_all add: lines_on_def is_line_op_def line_op_def blank_page_def)
    moreover have "(k + length (l # ls) - 1) div 51 = Suc (length ls div 51)"
      using k by simp
    ultimately show ?thesis using True Cons.prems k by simp
  next
    case False
    with Cons.prems have k: "k \<le> 50" by linarith
    have "map lines_on (layout ls (y - 14) (p\<lparr>ops := ops p @ [line_op l y]\<rparr>)) =
          replicate ((Suc k + length ls - 1) div 51) 51 @
          [Suc k + length ls - 51 * ((Suc k + length ls - 1) div 51)]"
      by (rule Cons.IH)
         (use Cons.prems k in \<open>simp_all add: lines_on_def is_line_op_def line_op_def\<close>)
    then show ?thesis using False by simp
  qed
qed

lemma length_split_lf: "length (split_lf t) = Suc (count_list t LF)"
  by (induction t) (auto split: list.splits)

lemma text_selected:
  "optStartsWith (mimeType f) ''text/'' \<Longrightarrow> synthesize env f = text_branch env f (titled f) 0"
  by (simp add: synthesize_def addPage_def create_def drawText_def append_op_def titled_def
        title_op_def blank_page_def)

lemma text_branch_layout:
  "readAsStringAsync env (uri f) = Some textContent \<Longrightarrow>
   snd (text_branch env f (titled f) 0) =
     Inr \<lparr>pages = layout (split_lf textContent) 750 (blank_page\<lparr>ops := [title_op f]\<rparr>)\<rparr>"
  using draw_lines_layout [of "split_lf textContent" 750 "[]" "blank_page\<lparr>ops := [title_op f]\<rparr>"]
  by (simp add: text_branch_def titled_def)

lemma text_lines_per_page:
  assumes "optStartsWith (mimeType f) ''text/''"
    and "readAsStringAsync env (uri f) = Some textContent"
  shows "lines_per_page env f =
     Some (replicate ((length (split_lf textContent) - 1) div 51) 51 @
           [length (split_lf textContent) - 51 * ((length (split_lf textContent) - 1) div 51)])"
proof -
  have "lines_on (blank_page\<lparr>ops := [title_op f]\<rparr>) = 0"
    by (simp add: lines_on_def is_line_op_def title_op_def)
  then have "map lines_on (layout (split_lf textContent) 750 (blank_page\<lparr>ops := [title_op f]\<rparr>)) =
     replicate ((0 + length (split_lf textContent) - 1) div 51) 51 @
     [0 + length (split_lf textContent) - 51 * ((0 + length (split_lf textContent) - 1) div 51)]"
    by (intro layout_counts) simp_all
  then show ?thesis
    using assms by (simp add: lines_per_page_def text_selected text_branch_layout)
qed

lemma count_list_append: "count_list (xs @ ys) a = count_list xs a + count_list ys a"
  by (induction xs) simp_all

lemma count_list_concat_replicate:
  "count_list (concat (replicate n xs)) a = n * count_list xs a"
  by (induction n) (simp_all add: count_list_append)

lemma count_list_replicate: "count_list (replicate n a) a = n"
  by (induction n) simp_all

lemma notes_lines: "length (split_lf notes_content) = 120"
  by (simp add: length_split_lf notes_content_def count_list_append count_list_concat_replicate LF_def)

lemma memo_lines: "length (split_lf memo_content) = 52"
  by (simp add: length_split_lf memo_content_def count_list_replicate)

lemma notes_lines_per_page: "lines_per_page notes_platform notes_txt = Some [51, 51, 18]"
proof -
  have "lines_per_page notes_platform notes_txt =
     Some (replicate ((length (split_lf notes_content) - 1) div 51) 51 @
           [length (split_lf notes_content) - 51 * ((length (split_lf notes_content) - 1) div 51)])"
    by (rule text_lines_per_page)
       (simp_all add: notes_platform_def notes_txt_def memory_platform_def optStartsWith_def startsWith_def)
  moreover have "replicate 2 (51::nat) = [51, 51]"
    by (simp add: numeral_2_eq_2)
  ultimately show ?thesis
    by (simp add: notes_lines)
qed

text \<open>
  Claim C1, as the code has it. For a file whose declared type starts with \<^verbatim>\<open>text/\<close> and
  whose payload is read as \<open>textContent\<close>, with \<open>totalLines\<close> the number of pieces of the
  payload split on line feed (at least one): the document has
  \<open>1 + (totalLines - 1) div 51\<close> pages, every page before the last holds 51 lines and
  the last holds the rest. A page takes 51 lines, not 50: the cursor runs from 750 to 50
  in steps of 14, and a line is still drawn at 50, since the page break is taken only
  when the cursor is below 50.
\<close>

theorem text_pagination:
  assumes "optStartsWith (mimeType f) ''text/''"
    and "readAsStringAsync env (uri f) = Some textContent"
  shows "lines_per_page env f =
           Some (replicate ((length (split_lf textContent) - 1) div 51) 51 @
                 [length (split_lf textContent)
                    - 51 * ((length (split_lf textContent) - 1) div 51)])
         \<and> page_count env f = Some (1 + (length (split_lf textContent) - 1) div 51)
         \<and> 1 \<le> length (split_lf textContent)"
proof -
  note lpp = text_lines_per_page [OF assms]
  moreover have "page_count env f = map_option length (lines_per_page env f)"
    by (simp add: page_count_def lines_per_page_def split: sum.splits)
  ultimately show ?thesis
    by (simp add: length_split_lf)
qed

text \<open>The theorem at a payload of 52 lines: two pages, of 51 lines and of 1 line.\<close>

theorem text_pagination_witness:
  "optStartsWith (mimeType memo_txt) ''text/''
   \<and> readAsStringAsync memo_platform (uri memo_txt) = Some memo_content
   \<and> length (split_lf memo_content) = 52
   \<and> lines_per_page memo_platform memo_txt = Some [51, 1]
   \<and> page_count memo_platform memo_txt = Some 2"
proof -
  have a: "optStartsWith (mimeType memo_txt) ''text/''"
    by (simp add: memo_txt_def optStartsWith_def startsWith_def)
  have b: "readAsStringAsync memo_platform (uri memo_txt) = Some memo_content"
    by (simp add: memo_platform_def memo_txt_def memory_platform_def)
  show ?thesis
    using a b text_pagination [OF a b] by (simp add: memo_lines)
qed

text \<open>
  Claim C1 as the specification states it fails at a payload of 120 lines: the pages hold
  51, 51 and 18 lines, not 50, 50 and 20, and the page count, 3, is not the value 2 that
  the stated formula gives with a capacity of 50.
\<close>

theorem text_pagination_counterexample:
  "length (split_lf notes_content) = 120
   \<and> lines_per_page notes_platform notes_txt = Some [51, 51, 18]
   \<and> lines_per_page notes_platform notes_txt \<noteq> Some [50, 50, 20]
   \<and> map_option length (lines_per_page notes_platform notes_txt)
       \<noteq> Some (spec_page_count (length (split_lf notes_content)))"
  by (simp add: notes_lines notes_lines_per_page spec_page_count_def)

section \<open>The choice of the branch and the image branch\<close>

lemma startsWith_prefix: "startsWith s p = prefix p s"
proof
  assume "startsWith s p"
  then have "s = p @ drop (length p) s"
    by (metis append_take_drop_id startsWith_def)
  then show "prefix p s" by (metis prefixI)
next
  assume "prefix p s"
  then show "startsWith s p" by (auto simp: startsWith_def prefix_def)
qed

lemma image_not_text:
  "optStartsWith m ''image/'' \<Longrightarrow> \<not> optStartsWith m ''text/''"
  by (cases m) (auto simp: optStartsWith_def startsWith_prefix prefix_def)

lemma image_selected:
  "optStartsWith (mimeType f) ''image/'' \<Longrightarrow>
   synthesize env f = image_branch env f (titled f) 0"
  using image_not_text [of "mimeType f"]
  by (simp add: synthesize_def addPage_def create_def drawText_def append_op_def titled_def
        title_op_def blank_page_def)

lemma fallback_selected:
  "\<not> optStartsWith (mimeType f) ''text/'' \<Longrightarrow> \<not> optStartsWith (mimeType f) ''image/'' \<Longrightarrow>
   synthesize env f = fallback_branch env f (titled f) 0"
  by (simp add: synthesize_def addPage_def create_def drawText_def append_op_def titled_def
        title_op_def blank_page_def)

lemma image_branch_drawn:
  assumes "readAsBase64 env (uri f) = Some imageData"
    and "atob env imageData = Some binary"
    and "(if mimeType f = Some ''image/png'' then embedPng env else embedJpg env)
           (map of_char binary) = Some img"
  shows "snd (image_branch env f (titled f) 0) =
     Inr \<lparr>pages = [blank_page\<lparr>ops :=
       [title_op f,
        Image img 50 400 (of_nat (imageWidth img) / 2) (of_nat (imageHeight img) / 2)]\<rparr>]\<rparr>"
  using assms
  by (simp add: image_branch_def scale_def drawImage_def append_op_def titled_def
        split: if_splits)

lemma image_branch_corrupt:
  assumes "readAsBase64 env (uri f) = Some imageData"
    and "atob env imageData = Some binary"
    and "(if mimeType f = Some ''image/png'' then embedPng env else embedJpg env)
           (map of_char binary) = None"
  shows "snd (image_branch env f (titled f) 0) = Inl CorruptImageData"
  using assms by (simp add: image_branch_def split: if_splits)

lemma gallery_picture:
  "optStartsWith (mimeType picture_png) ''image/''"
  "readAsBase64 gallery (uri picture_png) =
     Some [CHR 0x89, CHR 0x50, CHR 0x4E, CHR 0x47, CHR 0x64, CHR 0x4B]"
  "atob gallery [CHR 0x89, CHR 0x50, CHR 0x4E, CHR 0x47, CHR 0x64, CHR 0x4B] =
     Some [CHR 0x89, CHR 0x50, CHR 0x4E, CHR 0x47, CHR 0x64, CHR 0x4B]"
  "(if mimeType picture_png = Some ''image/png'' then embedPng gallery else embedJpg gallery)
     (map of_char [CHR 0x89, CHR 0x50, CHR 0x4E, CHR 0x47, CHR 0x64, CHR 0x4B]) =
     Some \<lparr>imageFormat = PNG, imageWidth = 100, imageHeight = 75\<rparr>"
  by (simp_all add: picture_png_def gallery_def memory_platform_def optStartsWith_def
        startsWith_def toy_png_def)

text \<open>
  Claim C7. For a file whose declared type starts with \<^verbatim>\<open>image/\<close>, whose payload is read
  and decoded from base 64, and whose bytes the embedder chosen by the declared type
  accepts as \<open>img\<close>: the document is one page holding the title and one image operation,
  at (50, 400), whose width and height are half the width and height of \<open>img\<close>.
\<close>

theorem image_drawn_once_at_half_size:
  assumes "optStartsWith (mimeType f) ''image/''"
    and "readAsBase64 env (uri f) = Some imageData"
    and "atob env imageData = Some binary"
    and "(if mimeType f = Some ''image/png'' then embedPng env else embedJpg env)
           (map of_char binary) = Some img"
  shows "snd (synthesize env f) =
     Inr \<lparr>pages = [blank_page\<lparr>ops :=
       [title_op f,
        Image img 50 400 (of_nat (imageWidth img) / 2) (of_nat (imageHeight img) / 2)]\<rparr>]\<rparr>"
  using assms(1) image_branch_drawn [OF assms(2-4)] by (simp add: image_selected)

text \<open>The theorem at a PNG picture of 100 by 75 pixels, drawn 50 by 37.5.\<close>

theorem image_drawn_once_at_half_size_witness:
  "optStartsWith (mimeType picture_png) ''image/''
   \<and> readAsBase64 gallery (uri picture_png) =
        Some [CHR 0x89, CHR 0x50, CHR 0x4E, CHR 0x47, CHR 0x64, CHR 0x4B]
   \<and> snd (synthesize gallery picture_png) =
     Inr \<lparr>pages = [\<lparr>pageWidth = 595, pageHeight = 842, ops =
       [Text ''Converted from: picture.png'' 50 800 18 None (rgb 0 0 0),
        Image \<lparr>imageFormat = PNG, imageWidth = 100, imageHeight = 75\<rparr> 50 400 50 (75 / 2)]\<rparr>]\<rparr>"
  using gallery_picture(1,2)
    image_drawn_once_at_half_size [OF gallery_picture(1) gallery_picture(2) gallery_picture(3)
      gallery_picture(4)]
  by (simp add: blank_page_def title_op_def picture_png_def)

section \<open>Results of the branches and of the attempt\<close>

lemma layout_nonempty: "layout ls y p \<noteq> []"
  by (induction ls arbitrary: y p) simp_all

lemma text_branch_result:
  "snd (text_branch env f (titled f) 0) =
     (case readAsStringAsync env (uri f) of
        None \<Rightarrow> Inl SourceUnreadable
      | Some textContent \<Rightarrow>
          Inr \<lparr>pages = layout (split_lf textContent) 750 (blank_page\<lparr>ops := [title_op f]\<rparr>)\<rparr>)"
  by (cases "readAsStringAsync env (uri f)")
     (simp_all add: text_branch_layout, simp add: text_branch_def)

lemma text_branch_pages:
  "snd (text_branch env f (titled f) 0) = Inr doc \<Longrightarrow> pages doc \<noteq> []"
  by (auto simp: text_branch_result layout_nonempty split: option.splits)

lemma text_branch_errors:
  "snd (text_branch env f (titled f) 0) = Inl e \<Longrightarrow> e = SourceUnreadable"
  by (auto simp: text_branch_result split: option.splits)

lemma image_branch_pages:
  "snd (image_branch env f (titled f) 0) = Inr doc \<Longrightarrow> length (pages doc) = 1"
  by (auto simp: image_branch_def scale_def drawImage_def append_op_def titled_def Let_def
        split: option.splits if_splits)

lemma image_branch_errors:
  "snd (image_branch env f (titled f) 0) = Inl e \<Longrightarrow>
   e = SourceUnreadable \<or> e = CorruptImageData"
  by (auto simp: image_branch_def scale_def Let_def split: option.splits if_splits)

lemma fallback_branch_result:
  "snd (fallback_branch env f (titled f) 0) =
     (case getInfoAsync env (uri f) of
        None \<Rightarrow> Inl SourceUnreadable
      | Some fileInfo \<Rightarrow>
          Inr \<lparr>pages = [blank_page\<lparr>ops :=
            [title_op f,
             Text ''File Conversion Details'' 50 700 16 None (rgb 0 0 0),
             Text (details_block env f fileInfo) 50 650 12 None (rgb 0 0 0)]\<rparr>]\<rparr>)"
  by (simp add: fallback_branch_def drawText_def append_op_def titled_def split: option.splits)

lemma synthesize_branches:
  "synthesize env f = text_branch env f (titled f) 0
   \<or> synthesize env f = image_branch env f (titled f) 0
   \<or> synthesize env f = fallback_branch env f (titled f) 0"
  using text_selected [of f env] image_selected [of f env] fallback_selected [of f env]
  by blast

lemma synthesize_pages:
  assumes "snd (synthesize env f) = Inr doc"
  shows "pages doc \<noteq> []"
proof -
  consider "synthesize env f = text_branch env f (titled f) 0"
    | "synthesize env f = image_branch env f (titled f) 0"
    | "synthesize env f = fallback_branch env f (titled f) 0"
    using synthesize_branches by blast
  then show ?thesis
  proof cases
    case 1
    with assms show ?thesis by (simp add: text_branch_pages)
  next
    case 2
    with assms image_branch_pages [of env f doc] show ?thesis by auto
  next
    case 3
    with assms show ?thesis
      by (auto simp: fallback_branch_result split: option.splits)
  qed
qed

lemma synthesize_errors:
  assumes "snd (synthesize env f) = Inl e"
  shows "e = SourceUnreadable \<or> e = CorruptImageData"
proof -
  consider "synthesize env f = text_branch env f (titled f) 0"
    | "synthesize env f = image_branch env f (titled f) 0"
    | "synthesize env f = fallback_branch env f (titled f) 0"
    using synthesize_branches by blast
  then show ?thesis
  proof cases
    case 1
    with assms show ?thesis by (simp add: text_branch_errors)
  next
    case 2
    with assms image_branch_errors [of env f e] show ?thesis by simp
  next
    case 3
    with assms show ?thesis
      by (auto simp: fallback_branch_result split: option.splits)
  qed
qed

lemma persist_errors:
  "pages doc \<noteq> [] \<Longrightarrow> snd (persist env f doc) = Inl e \<Longrightarrow> e = PersistenceFailure"
  by (auto simp: persist_def save_def btoa_def Let_def split: option.splits if_splits prod.splits)

lemma attempt_failed:
  "synthesize env f = (evs, Inl e) \<Longrightarrow> attempt env f = (evs, Inl e)"
  by (simp add: attempt_def)

lemma attempt_persist:
  "synthesize env f = (evs, Inr doc) \<Longrightarrow>
   attempt env f = (evs @ fst (persist env f doc), snd (persist env f doc))"
  by (simp add: attempt_def split: prod.splits)

lemma attempt_errors:
  assumes "snd (attempt env f) = Inl e"
  shows "e = SourceUnreadable \<or> e = CorruptImageData \<or> e = PersistenceFailure"
proof -
  obtain evs r where s: "synthesize env f = (evs, r)"
    by (cases "synthesize env f")
  show ?thesis
  proof (cases r)
    case (Inl e')
    with s assms have "e' = e" by (simp add: attempt_failed)
    with s Inl synthesize_errors [of env f e] show ?thesis by auto
  next
    case (Inr doc)
    with s have "pages doc \<noteq> []" using synthesize_pages [of env f doc] by simp
    moreover from s Inr assms have "snd (persist env f doc) = Inl e"
      by (simp add: attempt_persist)
    ultimately show ?thesis by (simp add: persist_errors)
  qed
qed

lemma gallery_picture_document:
  "snd (synthesize gallery picture_png) =
     Inr \<lparr>pages = [\<lparr>pageWidth = 595, pageHeight = 842, ops =
       [Text ''Converted from: picture.png'' 50 800 18 None (rgb 0 0 0),
        Image \<lparr>imageFormat = PNG, imageWidth = 100, imageHeight = 75\<rparr> 50 400 50 (75 / 2)]\<rparr>]\<rparr>"
proof -
  have "snd (synthesize gallery picture_png) =
        snd (image_branch gallery picture_png (titled picture_png) 0)"
    by (simp only: image_selected [OF gallery_picture(1)])
  also note image_branch_drawn [OF gallery_picture(2) gallery_picture(3) gallery_picture(4)]
  finally show ?thesis
    by (simp add: blank_page_def title_op_def picture_png_def)
qed

text \<open>
  Claim C6. Every document that \<^const>\<open>synthesize\<close> hands to \<^const>\<open>save\<close> has at least one
  page, so \<^const>\<open>save\<close> returns the encoded bytes, and no conversion attempt fails with
  \<^const>\<open>SerializationError\<close>.
\<close>

theorem document_has_a_page:
  "(\<forall>doc. snd (synthesize env f) = Inr doc \<longrightarrow>
          1 \<le> length (pages doc) \<and> save env doc = Inr (encode env doc))
   \<and> snd (attempt env f) \<noteq> Inl SerializationError"
proof -
  have "1 \<le> length (pages doc) \<and> save env doc = Inr (encode env doc)"
    if "snd (synthesize env f) = Inr doc" for doc
    using synthesize_pages [OF that] by (cases "pages doc") (simp_all add: save_def)
  moreover have "snd (attempt env f) \<noteq> Inl SerializationError"
    using attempt_errors [of env f SerializationError] by auto
  ultimately show ?thesis by blast
qed

text \<open>The theorem at the PNG picture, one page, beside the three pages of the notes.\<close>

theorem document_has_a_page_witness:
  "snd (synthesize gallery picture_png) =
     Inr \<lparr>pages = [\<lparr>pageWidth = 595, pageHeight = 842, ops =
       [Text ''Converted from: picture.png'' 50 800 18 None (rgb 0 0 0),
        Image \<lparr>imageFormat = PNG, imageWidth = 100, imageHeight = 75\<rparr> 50 400 50 (75 / 2)]\<rparr>]\<rparr>
   \<and> snd (attempt gallery picture_png) \<noteq> Inl SerializationError
   \<and> page_count gallery picture_png = Some 1
   \<and> page_count notes_platform notes_txt = Some 3"
proof -
  have "page_count notes_platform notes_txt = map_option length (lines_per_page notes_platform notes_txt)"
    by (simp add: page_count_def lines_per_page_def split: sum.splits)
  then show ?thesis
    using document_has_a_page [of gallery picture_png] gallery_picture_document
    by (simp add: page_count_def notes_lines_per_page)
qed

section \<open>The dispatcher\<close>

lemma optStartsWith_select:
  "optStartsWith m p = (case m of None \<Rightarrow> False | Some t \<Rightarrow> prefix p t)"
  by (simp add: optStartsWith_def startsWith_prefix split: option.splits)

text \<open>
  Claim C3. For every declared type, absent or present, the routine runs the one branch
  that the selection rule of the specification names: the text branch when the type starts
  with \<^verbatim>\<open>text/\<close>, otherwise the image branch when it starts with \<^verbatim>\<open>image/\<close>, otherwise
  the fallback branch. Each branch starts from the titled one-page document.
\<close>

theorem strategy_selection:
  "synthesize env f =
     (case select_strategy (mimeType f) of
        TextLayout \<Rightarrow> text_branch env f (titled f) 0
      | ImageEmbedding \<Rightarrow> image_branch env f (titled f) 0
      | MetadataFallback \<Rightarrow> fallback_branch env f (titled f) 0)"
proof (cases "optStartsWith (mimeType f) ''text/''")
  case True
  then have "select_strategy (mimeType f) = TextLayout"
    by (auto simp: select_strategy_def optStartsWith_select split: option.splits)
  with True show ?thesis by (simp add: text_selected)
next
  case notext: False
  show ?thesis
  proof (cases "optStartsWith (mimeType f) ''image/''")
    case True
    with notext have "select_strategy (mimeType f) = ImageEmbedding"
      by (auto simp: select_strategy_def optStartsWith_select split: option.splits)
    with True show ?thesis by (simp add: image_selected)
  next
    case False
    with notext have "select_strategy (mimeType f) = MetadataFallback"
      by (auto simp: select_strategy_def optStartsWith_select split: option.splits)
    with notext False show ?thesis by (simp add: fallback_selected)
  qed
qed

text \<open>
  The theorem at four files. An upper-case \<^verbatim>\<open>TEXT/plain\<close> and an absent type go to the
  fallback branch.
\<close>

theorem strategy_selection_witness:
  "select_strategy (mimeType notes_txt) = TextLayout
   \<and> select_strategy (mimeType photo_gif) = ImageEmbedding
   \<and> select_strategy (mimeType archive_zip) = MetadataFallback
   \<and> select_strategy (mimeType blob) = MetadataFallback
   \<and> select_strategy (Some ''TEXT/plain'') = MetadataFallback
   \<and> select_strategy (Some ''text/image/'') = TextLayout
   \<and> synthesize notes_platform notes_txt = text_branch notes_platform notes_txt (titled notes_txt) 0
   \<and> synthesize gallery photo_gif = image_branch gallery photo_gif (titled photo_gif) 0
   \<and> synthesize downloads archive_zip = fallback_branch downloads archive_zip (titled archive_zip) 0
   \<and> synthesize downloads blob = fallback_branch downloads blob (titled blob) 0
   \<and> fst (synthesize downloads blob) = [GetInfo ''file:///blob'']"
proof -
  have s: "select_strategy (mimeType notes_txt) = TextLayout"
    "select_strategy (mimeType photo_gif) = ImageEmbedding"
    "select_strategy (mimeType archive_zip) = MetadataFallback"
    "select_strategy (mimeType blob) = MetadataFallback"
    "select_strategy (Some ''TEXT/plain'') = MetadataFallback"
    "select_strategy (Some ''text/image/'') = TextLayout"
    by (simp_all add: select_strategy_def notes_txt_def photo_gif_def archive_zip_def blob_def)
  have "fst (fallback_branch downloads blob (titled blob) 0) = [GetInfo ''file:///blob'']"
    by (simp add: fallback_branch_def downloads_def memory_platform_def blob_def)
  with s show ?thesis
    using strategy_selection [of notes_platform notes_txt]
      strategy_selection [of gallery photo_gif]
      strategy_selection [of downloads archive_zip]
      strategy_selection [of downloads blob]
    by simp
qed

section \<open>Images declared as GIF\<close>

lemma gallery_photo:
  "optStartsWith (mimeType photo_gif) ''image/''"
  "mimeType photo_gif = Some ''image/gif''"
  "readAsBase64 gallery (uri photo_gif) = Some [CHR 0xFF, CHR 0xD8, CHR 0x40, CHR 0x30]"
  "atob gallery [CHR 0xFF, CHR 0xD8, CHR 0x40, CHR 0x30] =
     Some [CHR 0xFF, CHR 0xD8, CHR 0x40, CHR 0x30]"
  "embedJpg gallery (map of_char [CHR 0xFF, CHR 0xD8, CHR 0x40, CHR 0x30]) =
     Some \<lparr>imageFormat = JPEG, imageWidth = 64, imageHeight = 48\<rparr>"
  by (simp_all add: photo_gif_def gallery_def memory_platform_def optStartsWith_def
        startsWith_def toy_jpg_def)

lemma gallery_anim:
  "optStartsWith (mimeType anim_gif) ''image/''"
  "mimeType anim_gif = Some ''image/gif''"
  "readAsBase64 gallery (uri anim_gif) = Some ''GIF89a''"
  "atob gallery ''GIF89a'' = Some ''GIF89a''"
  "embedJpg gallery (map of_char ''GIF89a'') = None"
  by (simp_all add: anim_gif_def gallery_def memory_platform_def optStartsWith_def
        startsWith_def toy_jpg_def)

lemma image_branch_events:
  assumes "readAsBase64 env (uri f) = Some imageData"
    and "atob env imageData = Some binary"
  shows "fst (image_branch env f (titled f) 0) =
     [ReadAsBase64 (uri f), Atob, if mimeType f = Some ''image/png'' then EmbedPng else EmbedJpg]"
  using assms by (simp add: image_branch_def scale_def Let_def split: option.splits)

text \<open>
  Claim C2, as the code has it. For a file declared \<^verbatim>\<open>image/gif\<close> whose payload is read
  and decoded from base 64, the bytes go to the JPEG embedder, as for every image type
  other than \<^verbatim>\<open>image/png\<close>. When the embedder rejects them the conversion fails with
  \<^const>\<open>CorruptImageData\<close>; when it accepts them the image is drawn. No conversion fails
  with \<^const>\<open>UnsupportedImageFormat\<close>.
\<close>

theorem gif_goes_to_the_jpeg_embedder:
  assumes "mimeType f = Some ''image/gif''"
    and "readAsBase64 env (uri f) = Some imageData"
    and "atob env imageData = Some binary"
  shows "fst (synthesize env f) = [ReadAsBase64 (uri f), Atob, EmbedJpg]
   \<and> snd (synthesize env f) =
       (case embedJpg env (map of_char binary) of
          None \<Rightarrow> Inl CorruptImageData
        | Some img \<Rightarrow>
            Inr \<lparr>pages = [blank_page\<lparr>ops :=
              [title_op f,
               Image img 50 400 (of_nat (imageWidth img) / 2) (of_nat (imageHeight img) / 2)]\<rparr>]\<rparr>)
   \<and> (embedJpg env (map of_char binary) = None \<longrightarrow> snd (attempt env f) = Inl CorruptImageData)
   \<and> snd (attempt env f) \<noteq> Inl UnsupportedImageFormat"
proof -
  have sel: "optStartsWith (mimeType f) ''image/''"
    using assms(1) by (simp add: optStartsWith_def startsWith_def)
  have png: "mimeType f \<noteq> Some ''image/png''"
    using assms(1) by simp
  have ev: "fst (synthesize env f) = [ReadAsBase64 (uri f), Atob, EmbedJpg]"
    using image_branch_events [OF assms(2,3)] png by (simp add: image_selected [OF sel])
  have res: "snd (synthesize env f) =
       (case embedJpg env (map of_char binary) of
          None \<Rightarrow> Inl CorruptImageData
        | Some img \<Rightarrow>
            Inr \<lparr>pages = [blank_page\<lparr>ops :=
              [title_op f,
               Image img 50 400 (of_nat (imageWidth img) / 2) (of_nat (imageHeight img) / 2)]\<rparr>]\<rparr>)"
  proof (cases "embedJpg env (map of_char binary)")
    case None
    with png have "(if mimeType f = Some ''image/png'' then embedPng env else embedJpg env)
           (map of_char binary) = None" by simp
    from image_branch_corrupt [OF assms(2,3) this] None show ?thesis
      by (simp add: image_selected [OF sel])
  next
    case (Some img)
    with png have "(if mimeType f = Some ''image/png'' then embedPng env else embedJpg env)
           (map of_char binary) = Some img" by simp
    from image_branch_drawn [OF assms(2,3) this] Some show ?thesis
      by (simp add: image_selected [OF sel])
  qed
  have "snd (attempt env f) = Inl CorruptImageData" if "embedJpg env (map of_char binary) = None"
  proof -
    from res that have "synthesize env f = (fst (synthesize env f), Inl CorruptImageData)"
      by (metis option.simps(4) prod.collapse)
    then show ?thesis by (simp add: attempt_failed)
  qed
  moreover have "snd (attempt env f) \<noteq> Inl UnsupportedImageFormat"
    using attempt_errors [of env f UnsupportedImageFormat] by auto
  ultimately show ?thesis using ev res by blast
qed

text \<open>
  The theorem at two files declared \<^verbatim>\<open>image/gif\<close>: JPEG data, which is drawn, and GIF
  data, which the JPEG embedder rejects.
\<close>

theorem gif_goes_to_the_jpeg_embedder_witness:
  "mimeType photo_gif = Some ''image/gif''
   \<and> readAsBase64 gallery (uri photo_gif) = Some [CHR 0xFF, CHR 0xD8, CHR 0x40, CHR 0x30]
   \<and> fst (synthesize gallery photo_gif) = [ReadAsBase64 ''file:///photo.gif'', Atob, EmbedJpg]
   \<and> snd (synthesize gallery photo_gif) =
     Inr \<lparr>pages = [\<lparr>pageWidth = 595, pageHeight = 842, ops =
       [Text ''Converted from: photo.gif'' 50 800 18 None (rgb 0 0 0),
        Image \<lparr>imageFormat = JPEG, imageWidth = 64, imageHeight = 48\<rparr> 50 400 32 24]\<rparr>]\<rparr>
   \<and> mimeType anim_gif = Some ''image/gif''
   \<and> readAsBase64 gallery (uri anim_gif) = Some ''GIF89a''
   \<and> snd (synthesize gallery anim_gif) = Inl CorruptImageData
   \<and> snd (attempt gallery anim_gif) = Inl CorruptImageData"
proof -
  note photo = gif_goes_to_the_jpeg_embedder
    [OF gallery_photo(2) gallery_photo(3) gallery_photo(4), unfolded gallery_photo(5) option.case]
  note anim = gif_goes_to_the_jpeg_embedder
    [OF gallery_anim(2) gallery_anim(3) gallery_anim(4), unfolded gallery_anim(5) option.case]
  from photo anim gallery_photo(2,3) gallery_anim(2,3) show ?thesis
    by (simp add: blank_page_def title_op_def photo_gif_def)
qed

text \<open>
  Claim C2 as the specification states it fails at both files: the conversion of the
  first succeeds, and the conversion of the second fails with \<^const>\<open>CorruptImageData\<close>.
\<close>

theorem gif_counterexample:
  "mimeType photo_gif = Some ''image/gif''
   \<and> snd (attempt gallery photo_gif) = Inr ''file:///documents/photo.pdf''
   \<and> mimeType anim_gif = Some ''image/gif''
   \<and> snd (attempt gallery anim_gif) = Inl CorruptImageData
   \<and> snd (attempt gallery anim_gif) \<noteq> Inl UnsupportedImageFormat"
proof -
  have "snd (attempt gallery photo_gif) = Inr ''file:///documents/photo.pdf''"
    by code_simp
  moreover have "snd (attempt gallery anim_gif) = Inl CorruptImageData"
    by code_simp
  ultimately show ?thesis by (simp add: gallery_photo(2) gallery_anim(2))
qed

section \<open>The fallback branch\<close>

text \<open>
  What \<^const>\<open>show_nat\<close> prints reads back as the number printed: it is a non-empty string of
  digits, with no leading zero unless it is the single digit zero.
\<close>

lemma digit_read:
  "digit_value (digit d) = d mod 10" "is_digit (digit d)"
proof -
  define k where "k = d mod 10"
  have "k < 10" by (simp add: k_def)
  then consider "k = 0" | "k = 1" | "k = 2" | "k = 3" | "k = 4" | "k = 5" | "k = 6"
    | "k = 7" | "k = 8" | "k = 9"
    by atomize_elim arith
  then have "digit_value (''0123456789'' ! k) = k \<and> is_digit (''0123456789'' ! k)"
    by cases (simp_all add: digit_value_def is_digit_def)
  then show "digit_value (digit d) = d mod 10" "is_digit (digit d)"
    by (simp_all add: digit_def k_def)
qed

lemma decimal_value_snoc:
  "decimal_value (ds @ [c]) = 10 * decimal_value ds + digit_value c"
  by (simp add: decimal_value_def)

lemma decimal_value_single: "decimal_value [c] = digit_value c"
  by (simp add: decimal_value_def)

lemma decimal_value_pair: "decimal_value [c, d] = 10 * digit_value c + digit_value d"
  by (simp add: decimal_value_def)

lemma show_nat_read: "decimal_value (show_nat n) = n"
proof (induction n rule: show_nat.induct)
  case (1 n)
  show ?case
  proof (cases "n < 10")
    case True
    then show ?thesis
      by (simp add: show_nat.simps [of n] decimal_value_single digit_read)
  next
    case False
    with 1 show ?thesis
      by (simp add: show_nat.simps [of n] decimal_value_snoc digit_read)
  qed
qed

lemma show_nat_digits: "list_all is_digit (show_nat n)"
proof (induction n rule: show_nat.induct)
  case (1 n)
  show ?case
  proof (cases "n < 10")
    case True
    then show ?thesis by (simp add: show_nat.simps [of n] digit_read)
  next
    case False
    with 1 show ?thesis by (simp add: show_nat.simps [of n] digit_read)
  qed
qed

lemma show_nat_nonempty: "show_nat n \<noteq> []"
  by (simp add: show_nat.simps [of n])

lemma decimal_value_zero: "decimal_value ''0'' = 0"
  by (simp add: decimal_value_def digit_value_def)

lemma show_nat_no_leading_zero:
  assumes "hd (show_nat n) = CHR ''0''"
  shows "show_nat n = ''0''"
  using assms
proof (induction n rule: show_nat.induct)
  case (1 n)
  show ?case
  proof (cases "n < 10")
    case True
    with "1.prems" show ?thesis by (simp add: show_nat.simps [of n])
  next
    case False
    with "1.prems" have "hd (show_nat (n div 10)) = CHR ''0''"
      by (simp add: show_nat.simps [of n] show_nat_nonempty)
    with False "1.IH" have "show_nat (n div 10) = ''0''" by simp
    then have "decimal_value (show_nat (n div 10)) = 0"
      by (simp only: decimal_value_zero)
    then have "n div 10 = 0" by (simp only: show_nat_read)
    with False show ?thesis by simp
  qed
qed

lemma kilobytes_round_half_up:
  "rat_of_nat ((100 * sz + 512) div 1024) / 100 - rat_of_nat sz / 1024 \<le> 1 / 200"
  "rat_of_nat sz / 1024 - rat_of_nat ((100 * sz + 512) div 1024) / 100 < 1 / 200"
proof -
  define n where "n = (100 * sz + 512) div 1024"
  have "1024 * n \<le> 100 * sz + 512"
    unfolding n_def by (rule times_div_less_eq_dividend)
  moreover have "100 * sz + 512 < 1024 + 1024 * n"
    unfolding n_def by (rule dividend_less_times_div) simp
  ultimately have "rat_of_nat (1024 * n) \<le> rat_of_nat (100 * sz + 512)"
    and "rat_of_nat (100 * sz + 512) < rat_of_nat (1024 + 1024 * n)"
    by (simp_all only: of_nat_le_iff of_nat_less_iff)
  then have "1024 * rat_of_nat n \<le> 100 * rat_of_nat sz + 512"
    and "100 * rat_of_nat sz + 512 < 1024 + 1024 * rat_of_nat n"
    by simp_all
  then have "rat_of_nat n / 100 - rat_of_nat sz / 1024 \<le> 1 / 200"
    and "rat_of_nat sz / 1024 - rat_of_nat n / 100 < 1 / 200"
    by linarith+
  then show "rat_of_nat ((100 * sz + 512) div 1024) / 100 - rat_of_nat sz / 1024 \<le> 1 / 200"
    and "rat_of_nat sz / 1024 - rat_of_nat ((100 * sz + 512) div 1024) / 100 < 1 / 200"
    by (simp_all only: n_def)
qed

lemma kilobytes_printed:
  "\<exists>whole d1 d2.
     kilobytes_toFixed2 sz = whole @ ''.'' @ [d1, d2]
     \<and> whole \<noteq> [] \<and> list_all is_digit whole \<and> is_digit d1 \<and> is_digit d2
     \<and> (hd whole = CHR ''0'' \<longrightarrow> whole = ''0'')
     \<and> 100 * decimal_value whole + decimal_value [d1, d2] = (100 * sz + 512) div 1024"
proof -
  define n where "n = (100 * sz + 512) div 1024"
  have "kilobytes_toFixed2 sz =
          show_nat (n div 100) @ ''.'' @ [digit (n mod 100 div 10), digit (n mod 10)]"
    by (simp add: kilobytes_toFixed2_def n_def Let_def)
  moreover have "decimal_value [digit (n mod 100 div 10), digit (n mod 10)] = n mod 100"
  proof -
    have "n mod 100 div 10 < 10" by simp
    then have "n mod 100 div 10 mod 10 = n mod 100 div 10" by simp
    moreover have "n mod 10 = n mod 100 mod 10"
      by (simp add: mod_mod_cancel)
    ultimately show ?thesis
      by (simp add: decimal_value_pair digit_read)
  qed
  then have "100 * decimal_value (show_nat (n div 100))
         + decimal_value [digit (n mod 100 div 10), digit (n mod 10)] = n"
    by (simp add: show_nat_read)
  ultimately show ?thesis
    using show_nat_nonempty [of "n div 100"] show_nat_digits [of "n div 100"]
      show_nat_no_leading_zero [of "n div 100"]
      digit_read(2) [of "n mod 100 div 10"] digit_read(2) [of "n mod 10"]
    unfolding n_def by blast
qed

lemma details_block_parts:
  "sublist (''Original File: '' @ name f) (details_block env f fileInfo)"
  "sublist (''Type: '' @ (case mimeType f of None \<Rightarrow> ''unknown''
                          | Some m \<Rightarrow> if m = [] then ''unknown'' else m))
     (details_block env f fileInfo)"
  "sublist (''Size: '' @ (case fileInfo of Exists sz \<Rightarrow> kilobytes_toFixed2 sz @ '' KB''
                          | NotExists \<Rightarrow> ''unknown''))
     (details_block env f fileInfo)"
  "sublist (''Converted on: '' @ toLocaleString env) (details_block env f fileInfo)"
proof -
  let ?a = "''Original File: '' @ name f"
  let ?b = "''Type: '' @ (case mimeType f of None \<Rightarrow> ''unknown''
                          | Some m \<Rightarrow> if m = [] then ''unknown'' else m)"
  let ?c = "''Size: '' @ (case fileInfo of Exists sz \<Rightarrow> kilobytes_toFixed2 sz @ '' KB''
                          | NotExists \<Rightarrow> ''unknown'')"
  let ?d = "''Converted on: '' @ toLocaleString env"
  have eq: "details_block env f fileInfo = ?a @ [LF] @ ?b @ [LF] @ ?c @ [LF] @ ?d"
    by (simp add: details_block_def)
  show "sublist ?a (details_block env f fileInfo)"
    unfolding eq by (rule sublist_append_rightI)
  show "sublist ?b (details_block env f fileInfo)"
    unfolding eq using sublist_appendI [of ?b "?a @ [LF]" "[LF] @ ?c @ [LF] @ ?d"]
    by (simp only: append_assoc)
  show "sublist ?c (details_block env f fileInfo)"
    unfolding eq using sublist_appendI [of ?c "?a @ [LF] @ ?b @ [LF]" "[LF] @ ?d"]
    by (simp only: append_assoc)
  show "sublist ?d (details_block env f fileInfo)"
    unfolding eq using sublist_append_leftI [of ?d "?a @ [LF] @ ?b @ [LF] @ ?c @ [LF]"]
    by (simp only: append_assoc)
qed

lemma downloads_archive:
  "\<not> optStartsWith (mimeType archive_zip) ''text/''"
  "\<not> optStartsWith (mimeType archive_zip) ''image/''"
  "getInfoAsync downloads (uri archive_zip) = Some (Exists 2048)"
  by (simp_all add: archive_zip_def downloads_def memory_platform_def optStartsWith_def
        startsWith_def)

lemma show_nat_2: "show_nat 2 = ''2''"
  by (simp add: show_nat.simps [of 2] digit_def)

lemma archive_block:
  "details_block downloads archive_zip (Exists 2048) =
     ''Original File: archive.zip'' @ [LF] @ ''Type: application/zip'' @ [LF] @
     ''Size: 2.00 KB'' @ [LF] @ ''Converted on: 11/2/2026, 10:59:00 AM''"
  by (simp add: details_block_def archive_zip_def downloads_def memory_platform_def
        kilobytes_toFixed2_def show_nat_2 digit_def)

lemma backups_archive:
  "\<not> optStartsWith (mimeType archive_zip) ''text/''"
  "\<not> optStartsWith (mimeType archive_zip) ''image/''"
  "getInfoAsync backups (uri archive_zip) = Some (Exists 20480)"
  by (simp_all add: archive_zip_def backups_def memory_platform_def optStartsWith_def
        startsWith_def)

lemma show_nat_20: "show_nat 20 = ''20''"
  by (simp add: show_nat.simps [of 20] show_nat.simps [of 2] digit_def)

lemma backups_block:
  "details_block backups archive_zip (Exists 20480) =
     ''Original File: archive.zip'' @ [LF] @ ''Type: application/zip'' @ [LF] @
     ''Size: 20.00 KB'' @ [LF] @ ''Converted on: 11/2/2026, 10:59:00 AM''"
  by (simp add: details_block_def archive_zip_def backups_def memory_platform_def
        kilobytes_toFixed2_def show_nat_20 digit_def)

lemma details_block_size:
  "\<exists>sizeText.
     details_block env f fileInfo =
       ''Original File: '' @ name f @ [LF] @
       ''Type: '' @ (case mimeType f of None \<Rightarrow> ''unknown''
                     | Some m \<Rightarrow> if m = [] then ''unknown'' else m) @ [LF] @
       ''Size: '' @ sizeText @ [LF] @
       ''Converted on: '' @ toLocaleString env
     \<and> (case fileInfo of
          NotExists \<Rightarrow> sizeText = ''unknown''
        | Exists sz \<Rightarrow>
            (\<exists>whole d1 d2.
               sizeText = whole @ ''.'' @ [d1, d2] @ '' KB''
               \<and> whole \<noteq> [] \<and> list_all is_digit whole \<and> is_digit d1 \<and> is_digit d2
               \<and> (hd whole = CHR ''0'' \<longrightarrow> whole = ''0'')
               \<and> rat_of_nat (100 * decimal_value whole + decimal_value [d1, d2]) / 100
                   - rat_of_nat sz / 1024 \<le> 1 / 200
               \<and> rat_of_nat sz / 1024
                   - rat_of_nat (100 * decimal_value whole + decimal_value [d1, d2]) / 100
                   < 1 / 200))"
proof (cases fileInfo)
  case NotExists
  then show ?thesis by (simp add: details_block_def)
next
  case (Exists sz)
  obtain whole d1 d2 where
    p: "kilobytes_toFixed2 sz = whole @ ''.'' @ [d1, d2]"
    and q: "whole \<noteq> []" "list_all is_digit whole" "is_digit d1" "is_digit d2"
      "hd whole = CHR ''0'' \<longrightarrow> whole = ''0''"
    and v: "100 * decimal_value whole + decimal_value [d1, d2] = (100 * sz + 512) div 1024"
    using kilobytes_printed [of sz] by blast
  have size: "\<exists>whole d1 d2.
               kilobytes_toFixed2 sz @ '' KB'' = whole @ ''.'' @ [d1, d2] @ '' KB''
               \<and> whole \<noteq> [] \<and> list_all is_digit whole \<and> is_digit d1 \<and> is_digit d2
               \<and> (hd whole = CHR ''0'' \<longrightarrow> whole = ''0'')
               \<and> rat_of_nat (100 * decimal_value whole + decimal_value [d1, d2]) / 100
                   - rat_of_nat sz / 1024 \<le> 1 / 200
               \<and> rat_of_nat sz / 1024
                   - rat_of_nat (100 * decimal_value whole + decimal_value [d1, d2]) / 100
                   < 1 / 200"
  proof (intro exI conjI)
    show "kilobytes_toFixed2 sz @ '' KB'' = whole @ ''.'' @ [d1, d2] @ '' KB''"
      by (simp add: p)
    show "rat_of_nat (100 * decimal_value whole + decimal_value [d1, d2]) / 100
            - rat_of_nat sz / 1024 \<le> 1 / 200"
      by (simp only: v kilobytes_round_half_up)
    show "rat_of_nat sz / 1024
            - rat_of_nat (100 * decimal_value whole + decimal_value [d1, d2]) / 100 < 1 / 200"
      by (simp only: v kilobytes_round_half_up)
  qed (use q in blast)+
  have "details_block env f fileInfo =
       ''Original File: '' @ name f @ [LF] @
       ''Type: '' @ (case mimeType f of None \<Rightarrow> ''unknown''
                     | Some m \<Rightarrow> if m = [] then ''unknown'' else m) @ [LF] @
       ''Size: '' @ (kilobytes_toFixed2 sz @ '' KB'') @ [LF] @
       ''Converted on: '' @ toLocaleString env"
    using Exists by (simp add: details_block_def)
  with size Exists show ?thesis by (simp only: FileInfo.case) blast
qed

text \<open>
  Claim C5. For a file whose declared type starts with neither \<^verbatim>\<open>text/\<close> nor \<^verbatim>\<open>image/\<close>
  (an absent type included) and whose probe returns \<open>fileInfo\<close>: the document is one page
  holding the title, the header \<^verbatim>\<open>File Conversion Details\<close> at (50, 700) and one block at
  (50, 650). The block is four lines: the file name, the declared type or \<^verbatim>\<open>unknown\<close>,
  the size, and the timestamp. The size is \<^verbatim>\<open>unknown\<close> when the source does not exist.
  Otherwise it is a decimal numeral followed by \<^verbatim>\<open>KB\<close>: a non-empty string of digits with
  no superfluous leading zero, a point, and exactly two digits. Read back as a number of
  hundredths, it is the size in units of 1024 bytes rounded to the nearest hundredth, a
  tie going up.
\<close>

theorem fallback_details:
  assumes "\<not> optStartsWith (mimeType f) ''text/''"
    and "\<not> optStartsWith (mimeType f) ''image/''"
    and "getInfoAsync env (uri f) = Some fileInfo"
  shows "snd (synthesize env f) =
     Inr \<lparr>pages = [blank_page\<lparr>ops :=
       [title_op f,
        Text ''File Conversion Details'' 50 700 16 None (rgb 0 0 0),
        Text (details_block env f fileInfo) 50 650 12 None (rgb 0 0 0)]\<rparr>]\<rparr>
   \<and> (\<exists>sizeText.
        details_block env f fileInfo =
          ''Original File: '' @ name f @ [LF] @
          ''Type: '' @ (case mimeType f of None \<Rightarrow> ''unknown''
                        | Some m \<Rightarrow> if m = [] then ''unknown'' else m) @ [LF] @
          ''Size: '' @ sizeText @ [LF] @
          ''Converted on: '' @ toLocaleString env
        \<and> (case fileInfo of
             NotExists \<Rightarrow> sizeText = ''unknown''
           | Exists sz \<Rightarrow>
               (\<exists>whole d1 d2.
                  sizeText = whole @ ''.'' @ [d1, d2] @ '' KB''
                  \<and> whole \<noteq> [] \<and> list_all is_digit whole \<and> is_digit d1 \<and> is_digit d2
                  \<and> (hd whole = CHR ''0'' \<longrightarrow> whole = ''0'')
                  \<and> rat_of_nat (100 * decimal_value whole + decimal_value [d1, d2]) / 100
                      - rat_of_nat sz / 1024 \<le> 1 / 200
                  \<and> rat_of_nat sz / 1024
                      - rat_of_nat (100 * decimal_value whole + decimal_value [d1, d2]) / 100
                      < 1 / 200)))
   \<and> sublist (''Original File: '' @ name f) (details_block env f fileInfo)
   \<and> sublist (''Type: '' @ (case mimeType f of None \<Rightarrow> ''unknown''
                             | Some m \<Rightarrow> if m = [] then ''unknown'' else m))
        (details_block env f fileInfo)
   \<and> sublist (''Converted on: '' @ toLocaleString env) (details_block env f fileInfo)"
proof -
  have "snd (synthesize env f) =
     Inr \<lparr>pages = [blank_page\<lparr>ops :=
       [title_op f,
        Text ''File Conversion Details'' 50 700 16 None (rgb 0 0 0),
        Text (details_block env f fileInfo) 50 650 12 None (rgb 0 0 0)]\<rparr>]\<rparr>"
    using assms by (simp add: fallback_selected fallback_branch_result)
  with details_block_size [of env f fileInfo]
    details_block_parts(1,2,4) [where f = f and env = env and fileInfo = fileInfo]
  show ?thesis by blast
qed

text \<open>
  The theorem at \<^verbatim>\<open>archive.zip\<close>, declared \<^verbatim>\<open>application/zip\<close>, of 2048 bytes: the block
  contains \<^verbatim>\<open>Size: 2.00 KB\<close> and \<^verbatim>\<open>Type: application/zip\<close>. And at the same archive with
  20480 bytes, printed \<^verbatim>\<open>20.00 KB\<close>.
\<close>

theorem fallback_details_witness:
  "\<not> optStartsWith (mimeType archive_zip) ''text/''
   \<and> \<not> optStartsWith (mimeType archive_zip) ''image/''
   \<and> getInfoAsync downloads (uri archive_zip) = Some (Exists 2048)
   \<and> snd (synthesize downloads archive_zip) =
     Inr \<lparr>pages = [\<lparr>pageWidth = 595, pageHeight = 842, ops =
       [Text ''Converted from: archive.zip'' 50 800 18 None (rgb 0 0 0),
        Text ''File Conversion Details'' 50 700 16 None (rgb 0 0 0),
        Text (''Original File: archive.zip'' @ [LF] @ ''Type: application/zip'' @ [LF] @
              ''Size: 2.00 KB'' @ [LF] @ ''Converted on: 11/2/2026, 10:59:00 AM'')
          50 650 12 None (rgb 0 0 0)]\<rparr>]\<rparr>
   \<and> sublist ''Size: 2.00 KB'' (details_block downloads archive_zip (Exists 2048))
   \<and> sublist ''Type: application/zip'' (details_block downloads archive_zip (Exists 2048))
   \<and> list_all is_digit ''200'' \<and> 100 * decimal_value ''2'' + decimal_value ''00'' = 200
   \<and> getInfoAsync backups (uri archive_zip) = Some (Exists 20480)
   \<and> snd (synthesize backups archive_zip) =
     Inr \<lparr>pages = [\<lparr>pageWidth = 595, pageHeight = 842, ops =
       [Text ''Converted from: archive.zip'' 50 800 18 None (rgb 0 0 0),
        Text ''File Conversion Details'' 50 700 16 None (rgb 0 0 0),
        Text (''Original File: archive.zip'' @ [LF] @ ''Type: application/zip'' @ [LF] @
              ''Size: 20.00 KB'' @ [LF] @ ''Converted on: 11/2/2026, 10:59:00 AM'')
          50 650 12 None (rgb 0 0 0)]\<rparr>]\<rparr>
   \<and> 100 * decimal_value ''20'' + decimal_value ''00'' = 2000"
proof -
  note d = fallback_details [OF downloads_archive]
  note b = fallback_details [OF backups_archive]
  have doc: "snd (synthesize downloads archive_zip) =
     Inr \<lparr>pages = [\<lparr>pageWidth = 595, pageHeight = 842, ops =
       [Text ''Converted from: archive.zip'' 50 800 18 None (rgb 0 0 0),
        Text ''File Conversion Details'' 50 700 16 None (rgb 0 0 0),
        Text (''Original File: archive.zip'' @ [LF] @ ''Type: application/zip'' @ [LF] @
              ''Size: 2.00 KB'' @ [LF] @ ''Converted on: 11/2/2026, 10:59:00 AM'')
          50 650 12 None (rgb 0 0 0)]\<rparr>]\<rparr>"
    using d by (simp add: archive_block blank_page_def title_op_def) (simp add: archive_zip_def)
  have doc2: "snd (synthesize backups archive_zip) =
     Inr \<lparr>pages = [\<lparr>pageWidth = 595, pageHeight = 842, ops =
       [Text ''Converted from: archive.zip'' 50 800 18 None (rgb 0 0 0),
        Text ''File Conversion Details'' 50 700 16 None (rgb 0 0 0),
        Text (''Original File: archive.zip'' @ [LF] @ ''Type: application/zip'' @ [LF] @
              ''Size: 20.00 KB'' @ [LF] @ ''Converted on: 11/2/2026, 10:59:00 AM'')
          50 650 12 None (rgb 0 0 0)]\<rparr>]\<rparr>"
    using b by (simp add: backups_block blank_page_def title_op_def) (simp add: archive_zip_def)
  have size: "sublist ''Size: 2.00 KB'' (details_block downloads archive_zip (Exists 2048))"
    unfolding archive_block
    using sublist_appendI [of "''Size: 2.00 KB''"
        "''Original File: archive.zip'' @ [LF] @ ''Type: application/zip'' @ [LF]"
        "[LF] @ ''Converted on: 11/2/2026, 10:59:00 AM''"]
    by (simp only: append_assoc)
  have type: "sublist ''Type: application/zip'' (details_block downloads archive_zip (Exists 2048))"
    using d by (simp add: archive_zip_def)
  have digits: "list_all is_digit ''200''" "100 * decimal_value ''2'' + decimal_value ''00'' = 200"
    "100 * decimal_value ''20'' + decimal_value ''00'' = 2000"
    by (simp_all add: is_digit_def decimal_value_def digit_value_def)
  from downloads_archive backups_archive(3) doc doc2 size type digits show ?thesis by blast
qed

section \<open>The title\<close>

lemma layout_shape:
  "\<exists>body later. layout ls y p = (p\<lparr>ops := ops p @ body\<rparr>) # later
     \<and> list_all is_line_op body
     \<and> list_all (\<lambda>q. list_all is_line_op (ops q)) later"
proof (induction ls arbitrary: y p)
  case Nil
  have "layout [] y p = (p\<lparr>ops := ops p @ []\<rparr>) # []"
    and "list_all is_line_op []"
    and "list_all (\<lambda>q. list_all is_line_op (ops q)) []"
    by simp_all
  then show ?case by blast
next
  case (Cons l ls)
  show ?case
  proof (cases "y < 50")
    case True
    obtain body later where
      "layout ls 736 (blank_page\<lparr>ops := [line_op l 750]\<rparr>) =
         (blank_page\<lparr>ops := [line_op l 750]\<rparr>\<lparr>ops := ops (blank_page\<lparr>ops := [line_op l 750]\<rparr>) @ body\<rparr>) # later"
      and "list_all is_line_op body"
      and "list_all (\<lambda>q. list_all is_line_op (ops q)) later"
      using Cons.IH by blast
    then have "layout (l # ls) y p = (p\<lparr>ops := ops p @ []\<rparr>) #
          (blank_page\<lparr>ops := line_op l 750 # body\<rparr>) # later"
      and "list_all (\<lambda>q. list_all is_line_op (ops q))
             ((blank_page\<lparr>ops := line_op l 750 # body\<rparr>) # later)"
      and "list_all is_line_op []"
      using True by (simp_all add: is_line_op_def line_op_def)
    then show ?thesis by blast
  next
    case False
    obtain body later where
      "layout ls (y - 14) (p\<lparr>ops := ops p @ [line_op l y]\<rparr>) =
         (p\<lparr>ops := ops p @ [line_op l y]\<rparr>\<lparr>ops := ops (p\<lparr>ops := ops p @ [line_op l y]\<rparr>) @ body\<rparr>) # later"
      and "list_all is_line_op body"
      and "list_all (\<lambda>q. list_all is_line_op (ops q)) later"
      using Cons.IH by blast
    then have "layout (l # ls) y p = (p\<lparr>ops := ops p @ (line_op l y # body)\<rparr>) # later"
      and "list_all is_line_op (line_op l y # body)"
      using False by (simp_all add: is_line_op_def line_op_def)
    with \<open>list_all (\<lambda>q. list_all is_line_op (ops q)) later\<close> show ?thesis by blast
  qed
qed

lemma title_is_no_line: "\<not> is_line_op (title_op f)"
  by (simp add: is_line_op_def title_op_def)

lemma image_branch_document:
  "snd (image_branch env f (titled f) 0) = Inr doc \<Longrightarrow>
   \<exists>img w h. doc = \<lparr>pages = [blank_page\<lparr>ops := [title_op f, Image img 50 400 w h]\<rparr>]\<rparr>"
  by (auto simp: image_branch_def scale_def drawImage_def append_op_def titled_def Let_def
        split: option.splits if_splits)

lemma memo_document:
  "snd (synthesize memo_platform memo_txt) =
     Inr \<lparr>pages = layout (split_lf memo_content) 750 (blank_page\<lparr>ops := [title_op memo_txt]\<rparr>)\<rparr>"
proof -
  have a: "optStartsWith (mimeType memo_txt) ''text/''"
    by (simp add: memo_txt_def optStartsWith_def startsWith_def)
  have b: "readAsStringAsync memo_platform (uri memo_txt) = Some memo_content"
    by (simp add: memo_platform_def memo_txt_def memory_platform_def)
  show ?thesis
    by (simp only: text_selected [OF a] text_branch_layout [OF b])
qed

text \<open>
  Claim C8. Whatever branch ran, the first operation of the first page of a produced
  document is the title \<^verbatim>\<open>Converted from:\<close> followed by the file name, at (50, 800) in
  size 18. The title operation occurs nowhere else: not again on the first page and on no
  later page.
\<close>

theorem title_on_first_page_only:
  assumes "snd (synthesize env f) = Inr doc"
  shows "\<exists>first later body.
           pages doc = first # later
           \<and> ops first = Text (''Converted from: '' @ name f) 50 800 18 None (rgb 0 0 0) # body
           \<and> title_op f = Text (''Converted from: '' @ name f) 50 800 18 None (rgb 0 0 0)
           \<and> title_op f \<notin> set body
           \<and> (\<forall>q \<in> set later. title_op f \<notin> set (ops q))"
proof -
  have goal: "\<exists>first later body.
           pages doc = first # later \<and> ops first = title_op f # body
           \<and> title_op f \<notin> set body \<and> (\<forall>q \<in> set later. title_op f \<notin> set (ops q))"
  proof -
    consider "synthesize env f = text_branch env f (titled f) 0"
      | "synthesize env f = image_branch env f (titled f) 0"
      | "synthesize env f = fallback_branch env f (titled f) 0"
      using synthesize_branches by blast
    then show ?thesis
    proof cases
      case 1
      with assms obtain t where
        doc: "doc = \<lparr>pages = layout (split_lf t) 750 (blank_page\<lparr>ops := [title_op f]\<rparr>)\<rparr>"
        by (auto simp: text_branch_result split: option.splits)
      obtain body later where
        l: "layout (split_lf t) 750 (blank_page\<lparr>ops := [title_op f]\<rparr>) =
              (blank_page\<lparr>ops := [title_op f]\<rparr>\<lparr>ops := ops (blank_page\<lparr>ops := [title_op f]\<rparr>) @ body\<rparr>) # later"
        and b: "list_all is_line_op body"
        and r: "list_all (\<lambda>q. list_all is_line_op (ops q)) later"
        using layout_shape by blast
      from b have "title_op f \<notin> set body"
        using title_is_no_line [of f] by (auto simp: list_all_iff)
      moreover from r have "\<forall>q \<in> set later. title_op f \<notin> set (ops q)"
        using title_is_no_line [of f] by (auto simp: list_all_iff)
      moreover from doc l have "pages doc = (blank_page\<lparr>ops := title_op f # body\<rparr>) # later"
        by simp
      moreover have "ops (blank_page\<lparr>ops := title_op f # body\<rparr>) = title_op f # body"
        by simp
      ultimately show ?thesis by blast
    next
      case 2
      with assms obtain img w h where
        "doc = \<lparr>pages = [blank_page\<lparr>ops := [title_op f, Image img 50 400 w h]\<rparr>]\<rparr>"
        using image_branch_document [of env f doc] by auto
      then have "pages doc = (blank_page\<lparr>ops := [title_op f, Image img 50 400 w h]\<rparr>) # []"
        and "ops (blank_page\<lparr>ops := [title_op f, Image img 50 400 w h]\<rparr>) =
               title_op f # [Image img 50 400 w h]"
        and "title_op f \<notin> set [Image img 50 400 w h]"
        by (simp_all add: title_op_def)
      then show ?thesis by (metis empty_iff empty_set)
    next
      case 3
      with assms obtain info where
        "doc = \<lparr>pages = [blank_page\<lparr>ops :=
            [title_op f,
             Text ''File Conversion Details'' 50 700 16 None (rgb 0 0 0),
             Text (details_block env f info) 50 650 12 None (rgb 0 0 0)]\<rparr>]\<rparr>"
        by (auto simp: fallback_branch_result split: option.splits)
      then have "pages doc = (blank_page\<lparr>ops :=
            [title_op f,
             Text ''File Conversion Details'' 50 700 16 None (rgb 0 0 0),
             Text (details_block env f info) 50 650 12 None (rgb 0 0 0)]\<rparr>) # []"
        and "ops (blank_page\<lparr>ops :=
            [title_op f,
             Text ''File Conversion Details'' 50 700 16 None (rgb 0 0 0),
             Text (details_block env f info) 50 650 12 None (rgb 0 0 0)]\<rparr>) =
          title_op f #
            [Text ''File Conversion Details'' 50 700 16 None (rgb 0 0 0),
             Text (details_block env f info) 50 650 12 None (rgb 0 0 0)]"
        and "title_op f \<notin> set
            [Text ''File Conversion Details'' 50 700 16 None (rgb 0 0 0),
             Text (details_block env f info) 50 650 12 None (rgb 0 0 0)]"
        by (simp_all add: title_op_def)
      then show ?thesis by (metis empty_iff empty_set)
    qed
  qed
  have "title_op f = Text (''Converted from: '' @ name f) 50 800 18 None (rgb 0 0 0)"
    by (simp add: title_op_def)
  with goal show ?thesis by metis
qed

text \<open>The theorem at the text file of 52 lines, whose document has two pages.\<close>

theorem title_on_first_page_only_witness:
  "snd (synthesize memo_platform memo_txt) =
     Inr \<lparr>pages = layout (split_lf memo_content) 750 (blank_page\<lparr>ops := [title_op memo_txt]\<rparr>)\<rparr>
   \<and> page_count memo_platform memo_txt = Some 2
   \<and> (\<exists>first later body.
         layout (split_lf memo_content) 750 (blank_page\<lparr>ops := [title_op memo_txt]\<rparr>)
           = first # later
         \<and> ops first = Text ''Converted from: memo.txt'' 50 800 18 None (rgb 0 0 0) # body
         \<and> title_op memo_txt \<notin> set body
         \<and> (\<forall>q \<in> set later. title_op memo_txt \<notin> set (ops q)))"
proof -
  have a: "optStartsWith (mimeType memo_txt) ''text/''"
    by (simp add: memo_txt_def optStartsWith_def startsWith_def)
  have b: "readAsStringAsync memo_platform (uri memo_txt) = Some memo_content"
    by (simp add: memo_platform_def memo_txt_def memory_platform_def)
  have "page_count memo_platform memo_txt = map_option length (lines_per_page memo_platform memo_txt)"
    by (simp add: page_count_def lines_per_page_def split: sum.splits)
  then have c: "page_count memo_platform memo_txt = Some 2"
    by (simp add: text_lines_per_page [OF a b] memo_lines)
  have n: "name memo_txt = ''memo.txt''"
    by (simp add: memo_txt_def)
  from title_on_first_page_only [OF memo_document] memo_document c show ?thesis
    by (simp add: n) blast
qed

section \<open>What the routine does to the outside\<close>

lemma written_append: "written (xs @ ys) = written xs @ written ys"
  by (induction xs rule: written.induct) simp_all

lemma busy_updates_append: "busy_updates (xs @ ys) = busy_updates xs @ busy_updates ys"
  by (induction xs rule: busy_updates.induct) simp_all

lemma url_updates_append: "url_updates (xs @ ys) = url_updates xs @ url_updates ys"
  by (induction xs rule: url_updates.induct) simp_all

lemma text_branch_events: "fst (text_branch env f doc page) = [ReadAsString (uri f)]"
  by (simp add: text_branch_def split: option.splits)

lemma image_branch_event_cases:
  "fst (image_branch env f doc page) \<in>
     {[ReadAsBase64 (uri f)], [ReadAsBase64 (uri f), Atob],
      [ReadAsBase64 (uri f), Atob, EmbedPng], [ReadAsBase64 (uri f), Atob, EmbedJpg]}"
  by (simp add: image_branch_def scale_def Let_def split: option.splits)

lemma fallback_branch_events: "fst (fallback_branch env f doc page) = [GetInfo (uri f)]"
  by (simp add: fallback_branch_def split: option.splits)

lemma synthesize_events:
  "fst (synthesize env f) \<in>
     {[ReadAsString (uri f)], [GetInfo (uri f)],
      [ReadAsBase64 (uri f)], [ReadAsBase64 (uri f), Atob],
      [ReadAsBase64 (uri f), Atob, EmbedPng], [ReadAsBase64 (uri f), Atob, EmbedJpg]}"
  using synthesize_branches [of env f] image_branch_event_cases [of env f "titled f" 0]
  by (auto simp: text_branch_events fallback_branch_events)

lemma persist_cases:
  assumes "pages doc \<noteq> []"
  shows "\<exists>pre data.
     (pre = [Save, GlobalBtoa] \<or> pre = [Save, GlobalBtoa, BufferBase64])
     \<and> (persist env f doc = (pre, Inl PersistenceFailure)
        \<or> persist env f doc = (pre @ [WriteAsString (pdfUri env f) data], Inr (pdfUri env f))
            \<and> writeAsStringAsync env (pdfUri env f) data
        \<or> persist env f doc = (pre @ [WriteAsString (pdfUri env f) data], Inl PersistenceFailure)
            \<and> \<not> writeAsStringAsync env (pdfUri env f) data)"
  using assms
  by (auto simp: persist_def save_def btoa_def Let_def split: option.splits)

section \<open>The destination path\<close>

lemma replace_extension_strip:
  assumes "ext \<noteq> []" and "CHR ''.'' \<notin> set ext" and "CHR ''/'' \<notin> set ext"
  shows "replace_extension (stem @ ''.'' @ ext) = stem"
proof (induction stem)
  case Nil
  from assms show ?case by (auto simp: list_all_iff)
next
  case (Cons c stem)
  have "\<not> extension_at (c # stem @ ''.'' @ ext)"
    by (simp add: list_all_iff)
  with Cons show ?case by simp
qed

lemma replace_extension_keep:
  assumes "\<forall>stem ext. n = stem @ ''.'' @ ext \<longrightarrow>
             ext = [] \<or> CHR ''.'' \<in> set ext \<or> CHR ''/'' \<in> set ext"
  shows "replace_extension n = n"
  using assms
proof (induction n)
  case Nil
  show ?case by simp
next
  case (Cons c cs)
  have no: "\<not> extension_at (c # cs)"
  proof
    assume "extension_at (c # cs)"
    then have "c # cs = [] @ ''.'' @ cs" and "cs \<noteq> []"
      and "CHR ''.'' \<notin> set cs" and "CHR ''/'' \<notin> set cs"
      by (auto simp: list_all_iff)
    with Cons.prems show False by blast
  qed
  have "\<forall>stem ext. cs = stem @ ''.'' @ ext \<longrightarrow>
          ext = [] \<or> CHR ''.'' \<in> set ext \<or> CHR ''/'' \<in> set ext"
  proof (intro allI impI)
    fix stem ext
    assume "cs = stem @ ''.'' @ ext"
    then have "c # cs = (c # stem) @ ''.'' @ ext" by simp
    with Cons.prems show "ext = [] \<or> CHR ''.'' \<in> set ext \<or> CHR ''/'' \<in> set ext"
      by blast
  qed
  with Cons.IH no show ?case by simp
qed

lemma attempt_path:
  assumes "snd (attempt env f) = Inr path"
  shows "path = pdfUri env f \<and> map fst (written (fst (attempt env f))) = [pdfUri env f]"
proof -
  obtain evs r where s: "synthesize env f = (evs, r)"
    by (cases "synthesize env f")
  show ?thesis
  proof (cases r)
    case (Inl e)
    with s assms show ?thesis by (simp add: attempt_failed)
  next
    case (Inr doc)
    with s have p: "pages doc \<noteq> []" using synthesize_pages [of env f doc] by simp
    from s Inr have a: "attempt env f = (evs @ fst (persist env f doc), snd (persist env f doc))"
      by (rule_tac attempt_persist) simp
    have w: "written evs = []"
      using synthesize_events [of env f] s by auto
    from persist_cases [OF p, of env f] a assms w show ?thesis
      by (auto simp: written_append)
  qed
qed

text \<open>
  Claim C9. With the document directory of the platform being \<open>documentsRoot\<close> followed by
  a slash, the destination path is \<open>documentsRoot\<close>, a slash, the name without its extension
  and \<^verbatim>\<open>.pdf\<close>. The extension is what follows the final dot of the name, when that is
  not empty and holds no slash; then the name loses the dot and the extension. A name
  with no such extension is kept whole. A successful conversion returns this path and
  writes to this path only.
\<close>

theorem destination_path:
  assumes "documentDirectory env = documentsRoot @ ''/''"
  shows "(\<forall>stem ext. name f = stem @ ''.'' @ ext \<and> ext \<noteq> []
            \<and> CHR ''.'' \<notin> set ext \<and> CHR ''/'' \<notin> set ext \<longrightarrow>
            pdfUri env f = documentsRoot @ ''/'' @ stem @ ''.pdf'')
   \<and> ((\<forall>stem ext. name f = stem @ ''.'' @ ext \<longrightarrow>
            ext = [] \<or> CHR ''.'' \<in> set ext \<or> CHR ''/'' \<in> set ext) \<longrightarrow>
        pdfUri env f = documentsRoot @ ''/'' @ name f @ ''.pdf'')
   \<and> (\<forall>path. snd (attempt env f) = Inr path \<longrightarrow>
        path = pdfUri env f \<and> map fst (written (fst (attempt env f))) = [pdfUri env f])"
proof (intro conjI allI impI)
  fix stem ext
  assume "name f = stem @ ''.'' @ ext \<and> ext \<noteq> []
            \<and> CHR ''.'' \<notin> set ext \<and> CHR ''/'' \<notin> set ext"
  then have "replace_extension (name f) = stem"
    using replace_extension_strip [of ext stem] by simp
  with assms show "pdfUri env f = documentsRoot @ ''/'' @ stem @ ''.pdf''"
    by (simp add: pdfUri_def)
next
  assume "\<forall>stem ext. name f = stem @ ''.'' @ ext \<longrightarrow>
            ext = [] \<or> CHR ''.'' \<in> set ext \<or> CHR ''/'' \<in> set ext"
  then have "replace_extension (name f) = name f"
    by (rule replace_extension_keep)
  with assms show "pdfUri env f = documentsRoot @ ''/'' @ name f @ ''.pdf''"
    by (simp add: pdfUri_def)
next
  fix path
  assume "snd (attempt env f) = Inr path"
  then show "path = pdfUri env f" and "map fst (written (fst (attempt env f))) = [pdfUri env f]"
    using attempt_path by blast+
qed

text \<open>
  The theorem at \<^verbatim>\<open>archive.zip\<close>, at the name \<^verbatim>\<open>blob\<close>, which has no extension, and at a
  conversion that succeeds.
\<close>

theorem destination_path_witness:
  "documentDirectory downloads = ''file:///documents'' @ ''/''
   \<and> name archive_zip = ''archive'' @ ''.'' @ ''zip''
   \<and> pdfUri downloads archive_zip = ''file:///documents/archive.pdf''
   \<and> pdfUri downloads blob = ''file:///documents/blob.pdf''
   \<and> snd (attempt gallery photo_gif) = Inr ''file:///documents/photo.pdf''
   \<and> pdfUri gallery photo_gif = ''file:///documents/photo.pdf''
   \<and> written (fst (attempt gallery photo_gif)) = [(''file:///documents/photo.pdf'', ''%PDF-1.7'')]"
proof -
  have d: "documentDirectory downloads = ''file:///documents'' @ ''/''"
    by (simp add: downloads_def memory_platform_def)
  have g: "documentDirectory gallery = ''file:///documents'' @ ''/''"
    by (simp add: gallery_def memory_platform_def)
  have a: "name archive_zip = ''archive'' @ ''.'' @ ''zip'' \<and> ''zip'' \<noteq> []
            \<and> CHR ''.'' \<notin> set ''zip'' \<and> CHR ''/'' \<notin> set ''zip''"
    by (simp add: archive_zip_def)
  have b: "\<forall>stem ext. name blob = stem @ ''.'' @ ext \<longrightarrow>
            ext = [] \<or> CHR ''.'' \<in> set ext \<or> CHR ''/'' \<in> set ext"
  proof (intro allI impI)
    fix stem ext
    assume "name blob = stem @ ''.'' @ ext"
    then have "CHR ''.'' \<in> set (name blob)" by simp
    then show "ext = [] \<or> CHR ''.'' \<in> set ext \<or> CHR ''/'' \<in> set ext"
      by (simp add: blob_def)
  qed
  have p: "snd (attempt gallery photo_gif) = Inr ''file:///documents/photo.pdf''"
    by code_simp
  have w: "written (fst (attempt gallery photo_gif)) =
             [(''file:///documents/photo.pdf'', ''%PDF-1.7'')]"
    by code_simp
  from destination_path [OF d, of archive_zip] a
  have "pdfUri downloads archive_zip = ''file:///documents'' @ ''/'' @ ''archive'' @ ''.pdf''"
    by blast
  then have 1: "pdfUri downloads archive_zip = ''file:///documents/archive.pdf''" by simp
  from destination_path [OF d, of blob] b
  have "pdfUri downloads blob = ''file:///documents'' @ ''/'' @ name blob @ ''.pdf''"
    by blast
  then have 2: "pdfUri downloads blob = ''file:///documents/blob.pdf''" by (simp add: blob_def)
  from destination_path [OF g, of photo_gif] p
  have "''file:///documents/photo.pdf'' = pdfUri gallery photo_gif"
    by blast
  then have 3: "pdfUri gallery photo_gif = ''file:///documents/photo.pdf''" by simp
  from d a 1 2 3 p w show ?thesis by simp
qed

section \<open>Outcomes of a conversion\<close>

lemma attempt_outcome:
  "(\<exists>e. snd (synthesize env f) = Inl e \<and> attempt env f = (fst (synthesize env f), Inl e))
   \<or> (\<exists>doc pre data.
         snd (synthesize env f) = Inr doc
         \<and> (pre = [Save, GlobalBtoa] \<or> pre = [Save, GlobalBtoa, BufferBase64])
         \<and> (attempt env f = (fst (synthesize env f) @ pre, Inl PersistenceFailure)
            \<or> attempt env f =
                 (fst (synthesize env f) @ pre @ [WriteAsString (pdfUri env f) data],
                  Inr (pdfUri env f))
               \<and> writeAsStringAsync env (pdfUri env f) data
            \<or> attempt env f =
                 (fst (synthesize env f) @ pre @ [WriteAsString (pdfUri env f) data],
                  Inl PersistenceFailure)
               \<and> \<not> writeAsStringAsync env (pdfUri env f) data))"
proof -
  obtain evs r where s: "synthesize env f = (evs, r)"
    by (cases "synthesize env f")
  show ?thesis
  proof (cases r)
    case (Inl e)
    with s show ?thesis by (simp add: attempt_failed)
  next
    case (Inr doc)
    with s have p: "pages doc \<noteq> []" using synthesize_pages [of env f doc] by simp
    from s Inr have a: "attempt env f = (evs @ fst (persist env f doc), snd (persist env f doc))"
      by (rule_tac attempt_persist) simp
    obtain pre data where
      pre: "pre = [Save, GlobalBtoa] \<or> pre = [Save, GlobalBtoa, BufferBase64]"
      and c: "persist env f doc = (pre, Inl PersistenceFailure)
        \<or> persist env f doc = (pre @ [WriteAsString (pdfUri env f) data], Inr (pdfUri env f))
            \<and> writeAsStringAsync env (pdfUri env f) data
        \<or> persist env f doc = (pre @ [WriteAsString (pdfUri env f) data], Inl PersistenceFailure)
            \<and> \<not> writeAsStringAsync env (pdfUri env f) data"
      using persist_cases [OF p, of env f] by blast
    from c a s Inr have
      "attempt env f = (fst (synthesize env f) @ pre, Inl PersistenceFailure)
            \<or> attempt env f =
                 (fst (synthesize env f) @ pre @ [WriteAsString (pdfUri env f) data],
                  Inr (pdfUri env f))
               \<and> writeAsStringAsync env (pdfUri env f) data
            \<or> attempt env f =
                 (fst (synthesize env f) @ pre @ [WriteAsString (pdfUri env f) data],
                  Inl PersistenceFailure)
               \<and> \<not> writeAsStringAsync env (pdfUri env f) data"
      by auto
    with s Inr pre show ?thesis by auto
  qed
qed

lemma synthesize_quiet:
  "written (fst (synthesize env f)) = []"
  "busy_updates (fst (synthesize env f)) = []"
  "url_updates (fst (synthesize env f)) = []"
  using synthesize_events [of env f] by auto

lemma attempt_quiet:
  "busy_updates (fst (attempt env f)) = []"
  "url_updates (fst (attempt env f)) = []"
  using attempt_outcome [of env f] synthesize_quiet [of env f]
  by (auto simp: busy_updates_append url_updates_append)

lemma attempt_written:
  "(\<forall>e. snd (attempt env f) = Inl e \<longrightarrow>
      written (fst (attempt env f)) = []
      \<or> (\<exists>data. written (fst (attempt env f)) = [(pdfUri env f, data)]
            \<and> \<not> writeAsStringAsync env (pdfUri env f) data))
   \<and> (\<forall>path. snd (attempt env f) = Inr path \<longrightarrow>
      (\<exists>data. written (fst (attempt env f)) = [(path, data)]
            \<and> writeAsStringAsync env path data))"
  using attempt_outcome [of env f] synthesize_quiet [of env f]
  by (auto simp: written_append)

lemma attempt_calls: "distinct (calls (fst (attempt env f)))"
  using attempt_outcome [of env f] synthesize_events [of env f]
  by (auto simp: calls_def is_call_def)

lemma convert_selected:
  assumes "selectedFile s = Some f"
  shows "convertToPDF env s =
     (case snd (attempt env f) of
        Inr path \<Rightarrow>
          (s\<lparr>isConverting := False, downloadUrl := Some path\<rparr>,
           SetIsConverting True # fst (attempt env f) @
           [SetDownloadUrl path, Alert ''Success'' ''File converted to PDF successfully!'',
            SetIsConverting False])
      | Inl e \<Rightarrow>
          (s\<lparr>isConverting := False\<rparr>,
           SetIsConverting True # fst (attempt env f) @
           [ConsoleLog e, Alert ''Error'' (''Failed to convert file: '' @ errorMessage env e),
            SetIsConverting False]))"
  using assms by (simp add: convertToPDF_def split: prod.splits sum.splits)

text \<open>
  Claim C4. For a conversion of a selected file: when the synthesis fails (the payload is
  not read or not decoded, or the image is not embedded), the routine makes no further
  call, it logs and reports the error, and nothing is written; when serialization fails,
  nothing is written; on every failure the download location keeps its value and is not
  set, and the only write there can have been is the failed write itself; on success the
  download location is the path written to. No call to the platform is repeated.
\<close>

theorem failure_persists_nothing:
  assumes "selectedFile s = Some f"
  shows "(\<forall>e. snd (synthesize env f) = Inl e \<longrightarrow>
            snd (convertToPDF env s) =
              SetIsConverting True # fst (synthesize env f) @
              [ConsoleLog e, Alert ''Error'' (''Failed to convert file: '' @ errorMessage env e),
               SetIsConverting False]
            \<and> written (snd (convertToPDF env s)) = [])
   \<and> (\<forall>doc e. save env doc = Inl e \<longrightarrow> persist env f doc = ([Save], Inl e))
   \<and> (\<forall>e. snd (attempt env f) = Inl e \<longrightarrow>
          downloadUrl (fst (convertToPDF env s)) = downloadUrl s
          \<and> url_updates (snd (convertToPDF env s)) = []
          \<and> (written (snd (convertToPDF env s)) = []
             \<or> (\<exists>data. written (snd (convertToPDF env s)) = [(pdfUri env f, data)]
                   \<and> \<not> writeAsStringAsync env (pdfUri env f) data)))
   \<and> (\<forall>path. snd (attempt env f) = Inr path \<longrightarrow>
          downloadUrl (fst (convertToPDF env s)) = Some path
          \<and> url_updates (snd (convertToPDF env s)) = [path]
          \<and> (\<exists>data. written (snd (convertToPDF env s)) = [(path, data)]
                \<and> writeAsStringAsync env path data))
   \<and> distinct (calls (snd (convertToPDF env s)))"
proof (intro conjI allI impI)
  fix e
  assume e: "snd (synthesize env f) = Inl e"
  then have "attempt env f = (fst (synthesize env f), Inl e)"
    using attempt_failed [of env f "fst (synthesize env f)" e] by (metis prod.collapse)
  then show "snd (convertToPDF env s) =
              SetIsConverting True # fst (synthesize env f) @
              [ConsoleLog e, Alert ''Error'' (''Failed to convert file: '' @ errorMessage env e),
               SetIsConverting False]"
    and "written (snd (convertToPDF env s)) = []"
    by (simp_all add: convert_selected [OF assms] written_append synthesize_quiet)
next
  fix doc e
  assume "save env doc = Inl e"
  then show "persist env f doc = ([Save], Inl e)"
    by (simp add: persist_def)
next
  fix e
  assume e: "snd (attempt env f) = Inl e"
  then show "downloadUrl (fst (convertToPDF env s)) = downloadUrl s"
    and "url_updates (snd (convertToPDF env s)) = []"
    by (simp_all add: convert_selected [OF assms] url_updates_append attempt_quiet)
  from e attempt_written [of env f]
  show "written (snd (convertToPDF env s)) = []
             \<or> (\<exists>data. written (snd (convertToPDF env s)) = [(pdfUri env f, data)]
                   \<and> \<not> writeAsStringAsync env (pdfUri env f) data)"
    by (simp add: convert_selected [OF assms] written_append)
next
  fix path
  assume p: "snd (attempt env f) = Inr path"
  then show "downloadUrl (fst (convertToPDF env s)) = Some path"
    and "url_updates (snd (convertToPDF env s)) = [path]"
    by (simp_all add: convert_selected [OF assms] url_updates_append attempt_quiet)
  from p attempt_written [of env f]
  show "\<exists>data. written (snd (convertToPDF env s)) = [(path, data)]
                \<and> writeAsStringAsync env path data"
    by (simp add: convert_selected [OF assms] written_append)
next
  show "distinct (calls (snd (convertToPDF env s)))"
    using attempt_calls [of env f]
    by (cases "snd (attempt env f)")
       (simp_all add: convert_selected [OF assms] calls_def is_call_def)
qed

text \<open>
  The theorem at a text file that cannot be read, at a platform whose write fails, and at
  a conversion that succeeds.
\<close>

theorem failure_persists_nothing_witness:
  "selectedFile (idle (Some missing_txt)) = Some missing_txt
   \<and> snd (synthesize gallery missing_txt) = Inl SourceUnreadable
   \<and> snd (convertToPDF gallery (idle (Some missing_txt))) =
       [SetIsConverting True, ReadAsString ''file:///missing.txt'', ConsoleLog SourceUnreadable,
        Alert ''Error'' ''Failed to convert file: failed'', SetIsConverting False]
   \<and> written (snd (convertToPDF gallery (idle (Some missing_txt)))) = []
   \<and> downloadUrl (fst (convertToPDF gallery (idle (Some missing_txt)))) = None
   \<and> snd (attempt full_disk photo_gif) = Inl PersistenceFailure
   \<and> downloadUrl (fst (convertToPDF full_disk (idle (Some photo_gif)))) = None
   \<and> url_updates (snd (convertToPDF full_disk (idle (Some photo_gif)))) = []
   \<and> snd (attempt gallery photo_gif) = Inr ''file:///documents/photo.pdf''
   \<and> downloadUrl (fst (convertToPDF gallery (idle (Some photo_gif)))) =
       Some ''file:///documents/photo.pdf''
   \<and> url_updates (snd (convertToPDF gallery (idle (Some photo_gif)))) =
       [''file:///documents/photo.pdf'']
   \<and> distinct (calls (snd (convertToPDF gallery (idle (Some photo_gif)))))"
proof -
  have s1: "selectedFile (idle (Some missing_txt)) = Some missing_txt"
    and s2: "selectedFile (idle (Some photo_gif)) = Some photo_gif"
    by (simp_all add: idle_def)
  have h1: "snd (synthesize gallery missing_txt) = Inl SourceUnreadable"
    by code_simp
  have e1: "fst (synthesize gallery missing_txt) = [ReadAsString ''file:///missing.txt'']"
    by code_simp
  have m1: "errorMessage gallery SourceUnreadable = ''failed''"
    by (simp add: gallery_def memory_platform_def)
  have a1: "snd (attempt gallery missing_txt) = Inl SourceUnreadable"
    by code_simp
  have a2: "snd (attempt full_disk photo_gif) = Inl PersistenceFailure"
    by code_simp
  have a3: "snd (attempt gallery photo_gif) = Inr ''file:///documents/photo.pdf''"
    by code_simp
  have d: "downloadUrl (idle (Some missing_txt)) = None"
    "downloadUrl (idle (Some photo_gif)) = None"
    by (simp_all add: idle_def)
  note t1 = failure_persists_nothing [OF s1, of gallery]
  note t2 = failure_persists_nothing [OF s2, of full_disk]
  note t3 = failure_persists_nothing [OF s2, of gallery]
  from t1 h1 have
    "snd (convertToPDF gallery (idle (Some missing_txt))) =
       SetIsConverting True # fst (synthesize gallery missing_txt) @
       [ConsoleLog SourceUnreadable,
        Alert ''Error'' (''Failed to convert file: '' @ errorMessage gallery SourceUnreadable),
        SetIsConverting False]"
    and c2: "written (snd (convertToPDF gallery (idle (Some missing_txt)))) = []"
    by blast+
  then have c1: "snd (convertToPDF gallery (idle (Some missing_txt))) =
       [SetIsConverting True, ReadAsString ''file:///missing.txt'', ConsoleLog SourceUnreadable,
        Alert ''Error'' ''Failed to convert file: failed'', SetIsConverting False]"
    by (simp add: e1 m1)
  from t1 a1 d have c3: "downloadUrl (fst (convertToPDF gallery (idle (Some missing_txt)))) = None"
    by metis
  from t2 a2 d have c4: "downloadUrl (fst (convertToPDF full_disk (idle (Some photo_gif)))) = None"
    and c5: "url_updates (snd (convertToPDF full_disk (idle (Some photo_gif)))) = []"
    by metis+
  from t3 a3 have c6: "downloadUrl (fst (convertToPDF gallery (idle (Some photo_gif)))) =
       Some ''file:///documents/photo.pdf''"
    and c7: "url_updates (snd (convertToPDF gallery (idle (Some photo_gif)))) =
       [''file:///documents/photo.pdf'']"
    by blast+
  from t3 have c8: "distinct (calls (snd (convertToPDF gallery (idle (Some photo_gif)))))"
    by blast
  from s1 h1 c1 c2 c3 a2 c4 c5 a3 c6 c7 c8 show ?thesis by blast
qed

text \<open>
  Claim C10. With no file selected the routine only shows an alert: the state is unchanged
  and the busy flag is never set. With a file selected the busy flag is set to true first
  and to false last, by exactly these two updates, and it is false in the final state,
  on success and on failure. A routine entered with the flag false leaves it false.
\<close>

theorem busy_flag_restored:
  "(selectedFile s = None \<longrightarrow>
      convertToPDF env s = (s, [Alert ''Error'' ''Please select a file first''])
      \<and> busy_updates (snd (convertToPDF env s)) = [])
   \<and> (\<forall>f. selectedFile s = Some f \<longrightarrow>
      isConverting (fst (convertToPDF env s)) = False
      \<and> busy_updates (snd (convertToPDF env s)) = [True, False]
      \<and> hd (snd (convertToPDF env s)) = SetIsConverting True
      \<and> last (snd (convertToPDF env s)) = SetIsConverting False)
   \<and> (\<not> isConverting s \<longrightarrow> \<not> isConverting (fst (convertToPDF env s)))"
proof -
  have none: "convertToPDF env s = (s, [Alert ''Error'' ''Please select a file first''])"
    if "selectedFile s = None"
    using that by (simp add: convertToPDF_def)
  have some: "isConverting (fst (convertToPDF env s)) = False
      \<and> busy_updates (snd (convertToPDF env s)) = [True, False]
      \<and> hd (snd (convertToPDF env s)) = SetIsConverting True
      \<and> last (snd (convertToPDF env s)) = SetIsConverting False"
    if "selectedFile s = Some f" for f
    by (cases "snd (attempt env f)")
       (simp_all add: convert_selected [OF that] busy_updates_append attempt_quiet)
  have "\<not> isConverting (fst (convertToPDF env s))" if "\<not> isConverting s"
  proof (cases "selectedFile s")
    case None
    with that show ?thesis by (simp add: none)
  next
    case (Some f)
    then show ?thesis using some by simp
  qed
  with none some show ?thesis by simp
qed

text \<open>
  The theorem at a run with no file selected, at a conversion that succeeds and at one
  that fails.
\<close>

theorem busy_flag_restored_witness:
  "selectedFile (idle None) = None
   \<and> convertToPDF gallery (idle None) =
       (idle None, [Alert ''Error'' ''Please select a file first''])
   \<and> selectedFile (idle (Some photo_gif)) = Some photo_gif
   \<and> busy_updates (snd (convertToPDF gallery (idle (Some photo_gif)))) = [True, False]
   \<and> \<not> isConverting (fst (convertToPDF gallery (idle (Some photo_gif))))
   \<and> selectedFile (idle (Some anim_gif)) = Some anim_gif
   \<and> busy_updates (snd (convertToPDF gallery (idle (Some anim_gif)))) = [True, False]
   \<and> \<not> isConverting (fst (convertToPDF gallery (idle (Some anim_gif))))
   \<and> snd (convertToPDF gallery (idle (Some anim_gif))) =
       [SetIsConverting True, ReadAsBase64 ''file:///anim.gif'', Atob, EmbedJpg,
        ConsoleLog CorruptImageData, Alert ''Error'' ''Failed to convert file: failed'',
        SetIsConverting False]"
proof -
  have s0: "selectedFile (idle None) = None"
    and s1: "selectedFile (idle (Some photo_gif)) = Some photo_gif"
    and s2: "selectedFile (idle (Some anim_gif)) = Some anim_gif"
    by (simp_all add: idle_def)
  have tr: "snd (convertToPDF gallery (idle (Some anim_gif))) =
       [SetIsConverting True, ReadAsBase64 ''file:///anim.gif'', Atob, EmbedJpg,
        ConsoleLog CorruptImageData, Alert ''Error'' ''Failed to convert file: failed'',
        SetIsConverting False]"
    by code_simp
  from busy_flag_restored [of "idle None" gallery] s0
  have c0: "convertToPDF gallery (idle None) =
       (idle None, [Alert ''Error'' ''Please select a file first''])"
    by blast
  from busy_flag_restored [of "idle (Some photo_gif)" gallery] s1
  have c1: "busy_updates (snd (convertToPDF gallery (idle (Some photo_gif)))) = [True, False]"
    and c2: "\<not> isConverting (fst (convertToPDF gallery (idle (Some photo_gif))))"
    by blast+
  from busy_flag_restored [of "idle (Some anim_gif)" gallery] s2
  have c3: "busy_updates (snd (convertToPDF gallery (idle (Some anim_gif)))) = [True, False]"
    and c4: "\<not> isConverting (fst (convertToPDF gallery (idle (Some anim_gif))))"
    by blast+
  from s0 c0 s1 c1 c2 s2 c3 c4 tr show ?thesis by blast
qed

end
